theory Spec2Isabelle
  imports Complex_Main "HOL-Library.AList" "HOL-Library.Log_Nat" "HOL-Library.Product_Lexorder"
begin

section \<open>Python values\<close>

text \<open>
  The program reads loosely typed dictionaries handed over by the extractor. A key of
  such a dictionary is absent, bound to \<open>None\<close>, or bound to a value; \<open>d.get(k)\<close> and
  \<open>d.get(k, default)\<close> tell the first two apart only when a default is given.
  A Python value that may be \<open>None\<close> is an \<open>option\<close>.
\<close>

datatype 'a field = Absent | Null | Val 'a

definition get :: "'a field \<Rightarrow> 'a option" where
  "get f = (case f of Val v \<Rightarrow> Some v | _ \<Rightarrow> None)"

definition get_or :: "'a field \<Rightarrow> 'a \<Rightarrow> 'a option" where
  "get_or f d = (case f of Absent \<Rightarrow> Some d | Null \<Rightarrow> None | Val v \<Rightarrow> Some v)"

text \<open>Truthiness of a string and of a number that may be \<open>None\<close>.\<close>

definition truthy_str :: "string option \<Rightarrow> bool" where
  "truthy_str v = (case v of None \<Rightarrow> False | Some s \<Rightarrow> s \<noteq> [])"

definition truthy_num :: "real option \<Rightarrow> bool" where
  "truthy_num v = (case v of None \<Rightarrow> False | Some x \<Rightarrow> x \<noteq> 0)"

text \<open>\<open>a or b\<close> on numbers.\<close>

definition py_or :: "real option \<Rightarrow> real option \<Rightarrow> real option" where
  "py_or a b = (if truthy_num a then a else b)"

text \<open>An f-string renders \<open>None\<close> as the text \<open>None\<close>.\<close>

definition py_str :: "string option \<Rightarrow> string" where
  "py_str v = (case v of None \<Rightarrow> ''None'' | Some s \<Rightarrow> s)"

text \<open>\<open>int(x)\<close> on a float truncates towards zero.\<close>

definition py_int :: "real \<Rightarrow> int" where
  "py_int x = (if 0 \<le> x then \<lfloor>x\<rfloor> else \<lceil>x\<rceil>)"

text \<open>
  Floats are doubles, each modelled by the real number it denotes. \<open>rhe\<close> rounds a real
  to the nearest integer, a tie going to the even one. \<open>binade\<close> gives, for a positive
  real \<open>x\<close>, the integer \<open>e\<close> with \<open>2 ^ e \<le> x < 2 ^ (e + 1)\<close>. \<open>fl\<close> rounds a real to the
  nearest double: 53 significant bits, a tie going to the even significand, with the
  spacing of the subnormal numbers below the smallest normal exponent; results beyond the
  largest double are not modelled. A float operation of the program is the exact
  operation followed by \<open>fl\<close>. The numbers the program receives are taken to be
  doubles, or integers that doubles hold exactly.
\<close>

definition rhe :: "real \<Rightarrow> int" where
  "rhe y = (let f = \<lfloor>y\<rfloor>; r = y - of_int f
            in if r < 1 / 2 then f else if 1 / 2 < r then f + 1
               else if even f then f else f + 1)"

definition binade :: "real \<Rightarrow> int" where
  "binade x = (if 1 \<le> x then bitlen \<lfloor>x\<rfloor> - 1 else - bitlen (\<lceil>1 / x\<rceil> - 1))"

definition fl :: "real \<Rightarrow> real" where
  "fl x = (if x = 0 then 0
           else (let e = max (binade \<bar>x\<bar>) (- 1022); u = 2 powi (e - 52)
                 in of_int (rhe (x / u)) * u))"

text \<open>
  \<open>round(x, 2)\<close> on a double: the decimal with two places nearest to the exact value of
  \<open>x\<close>, a tie going to the even last digit, and then the double nearest to that decimal.
\<close>

definition py_round2 :: "real \<Rightarrow> real" where
  "py_round2 x = fl (of_int (rhe (x * 100)) / 100)"

text \<open>\<open>sub in s\<close> on strings.\<close>

fun starts_with :: "string \<Rightarrow> string \<Rightarrow> bool" where
  "starts_with [] s = True"
| "starts_with (c # cs) [] = False"
| "starts_with (c # cs) (d # ds) = (c = d \<and> starts_with cs ds)"

fun in_str :: "string \<Rightarrow> string \<Rightarrow> bool" where
  "in_str sub [] = (sub = [])"
| "in_str sub (c # cs) = (starts_with sub (c # cs) \<or> in_str sub cs)"

text \<open>\<open>str(n)\<close> on an integer: decimal digits, with a minus sign when negative.\<close>

definition digit_char :: "nat \<Rightarrow> char" where
  "digit_char d = ''0123456789'' ! (d mod 10)"

fun str_nat :: "nat \<Rightarrow> string" where
  "str_nat n = (if n < 10 then [digit_char n] else str_nat (n div 10) @ [digit_char (n mod 10)])"

declare str_nat.simps [simp del]

definition str_int :: "int \<Rightarrow> string" where
  "str_int i = (if i < 0 then CHR ''-'' # str_nat (nat (- i)) else str_nat (nat i))"

text \<open>
  The exceptions the program raises or meets; \<open>str_exn\<close> is \<open>str(e)\<close>. For a
  \<open>KeyError\<close> that is the key between single quotes.
\<close>

datatype exn =
    Exception string
  | KeyError string
  | TypeError string
  | AttributeError string

fun str_exn :: "exn \<Rightarrow> string" where
  "str_exn (Exception m) = m"
| "str_exn (KeyError k) = CHR 0x27 # k @ [CHR 0x27]"
| "str_exn (TypeError m) = m"
| "str_exn (AttributeError m) = m"

section \<open>Formats\<close>

text \<open>
  A format as the extractor lists it: a dictionary of which the program reads these keys.
\<close>

record format =
  format_id :: "string field"
  resolution :: "string field"
  format_note :: "string field"
  ext :: "string field"
  filesize :: "real field"
  vcodec :: "string field"
  acodec :: "string field"
  fps :: "real field"

text \<open>\<open>format_size\<close>: the number printed with one decimal, and its unit.\<close>

fun format_size_units :: "real \<Rightarrow> string list \<Rightarrow> real \<times> string" where
  "format_size_units b [] = (b, ''TB'')"
| "format_size_units b (u # us) = (if b < 1024 then (b, u) else format_size_units (b / 1024) us)"

definition format_size :: "real \<Rightarrow> real \<times> string" where
  "format_size b = format_size_units b [''B'', ''KB'', ''MB'', ''GB'']"

text \<open>
  The key of both \<open>max\<close> calls: \<open>int(x.get("filesize", 0)) if x.get("filesize") else 0\<close>.
\<close>

definition size_key :: "real option \<Rightarrow> int" where
  "size_key v = (case v of None \<Rightarrow> 0 | Some n \<Rightarrow> if n \<noteq> 0 then py_int n else 0)"




text \<open>The search loop of \<open>ensure_audio_video_format\<close>: the first format with the identifier.\<close>

fun find_format :: "string \<Rightarrow> format list \<Rightarrow> format option" where
  "find_format fid [] = None"
| "find_format fid (f # fs) = (if get (format_id f) = Some fid then Some f else find_format fid fs)"




text \<open>
  An entry of the lists \<open>process_formats\<close> returns. \<open>size\<close> is \<open>None\<close> for the text
  \<open>N/A\<close>; the other fields are \<open>None\<close> where the dictionary holds Python's \<open>None\<close>.
\<close>

record format_info =
  itag :: "string option"
  quality :: "string option"
  container :: "string option"
  size :: "(real \<times> string) option"
  raw_size :: "real option"
  info_vcodec :: "string option"
  info_acodec :: "string option"
  info_fps :: "real option"
  info_note :: "string option"

definition make_info :: "format \<Rightarrow> format_info" where
  "make_info f =
     \<lparr> itag = get (format_id f),
       quality = (if truthy_str (get (resolution f)) then get_or (resolution f) ''N/A''
                  else get_or (format_note f) ''N/A''),
       container = get_or (ext f) [],
       size = (if truthy_num (get (filesize f))
               then map_option format_size (get_or (filesize f) 0) else None),
       raw_size = get_or (filesize f) 0,
       info_vcodec = get_or (vcodec f) ''none'',
       info_acodec = get_or (acodec f) ''none'',
       info_fps = get_or (fps f) 0,
       info_note = get_or (format_note f) [] \<rparr>"

definition quality_key :: "format_info \<Rightarrow> string" where
  "quality_key i = py_str (quality i) @ ''_'' @ py_str (container i)"

record processed =
  videoOnly :: "format_info list"
  audioOnly :: "format_info list"
  combined :: "format_info list"

text \<open>One round of the loop over the formats, on the set of keys seen and the three lists.\<close>

definition process_one :: "format \<Rightarrow> string set \<times> processed \<Rightarrow> string set \<times> processed" where
  "process_one f acc =
     (let seen = fst acc; p = snd acc; i = make_info f; k = quality_key i in
      if info_vcodec i \<noteq> Some ''none'' \<and> info_acodec i \<noteq> Some ''none'' then
        (if k \<notin> seen then (insert k seen, p\<lparr>combined := combined p @ [i]\<rparr>) else acc)
      else if info_vcodec i \<noteq> Some ''none'' \<and> info_acodec i = Some ''none'' then
        (if k \<notin> seen then (insert k seen, p\<lparr>videoOnly := videoOnly p @ [i]\<rparr>) else acc)
      else if info_vcodec i = Some ''none'' \<and> info_acodec i \<noteq> Some ''none'' then
        (if k \<notin> seen then (insert k seen, p\<lparr>audioOnly := audioOnly p @ [i]\<rparr>) else acc)
      else acc)"

text \<open>
  The final sort of each list, largest first, on the pair of \<open>int(raw_size)\<close> (0 when
  falsy) and \<open>fps\<close>. Python compares the second components of two pairs only when the
  first ones are equal, and comparing \<open>None\<close> with a number raises \<open>TypeError\<close>: the sort
  raises as soon as two entries of equal size disagree on whether \<open>fps\<close> is \<open>None\<close>.
  Otherwise a \<open>None\<close> never decides a comparison, and it is sorted as 0. The sort is
  stable, also with \<open>reverse=True\<close>. The message of the \<open>TypeError\<close>, which names the
  two types compared, is cut short here; nothing reads it.
\<close>

definition sort_clash :: "format_info list \<Rightarrow> bool" where
  "sort_clash xs \<longleftrightarrow>
     list_ex (\<lambda>a. list_ex (\<lambda>b. size_key (raw_size a) = size_key (raw_size b)
                               \<and> (info_fps a = None) \<noteq> (info_fps b = None)) xs) xs"

definition fps_key :: "format_info \<Rightarrow> real" where
  "fps_key i = (case info_fps i of None \<Rightarrow> 0 | Some x \<Rightarrow> x)"

definition sort_infos :: "format_info list \<Rightarrow> exn + format_info list" where
  "sort_infos xs =
     (if sort_clash xs then Inl (TypeError ''< not supported'')
      else Inr (sort_key (\<lambda>i. (- size_key (raw_size i), - fps_key i)) xs))"

definition process_formats :: "format list \<Rightarrow> exn + processed" where
  "process_formats formats =
     (let p = snd (fold process_one formats
                    ({}, \<lparr>videoOnly = [], audioOnly = [], combined = []\<rparr>)) in
      (case sort_infos (videoOnly p) of
         Inl e \<Rightarrow> Inl e
       | Inr v \<Rightarrow>
          (case sort_infos (audioOnly p) of
             Inl e \<Rightarrow> Inl e
           | Inr a \<Rightarrow>
              (case sort_infos (combined p) of
                 Inl e \<Rightarrow> Inl e
               | Inr c \<Rightarrow> Inr \<lparr>videoOnly = v, audioOnly = a, combined = c\<rparr>))))"

section \<open>The job registry\<close>

text \<open>
  The state of one job, the dictionary stored under its identifier. \<open>status\<close>,
  \<open>progress\<close>, \<open>is_audio\<close> and \<open>final_path\<close> are set when the job is created; the other
  keys appear later, and \<open>title\<close> only on audio jobs. The three texts \<open>speed\<close>,
  \<open>size_downloaded\<close> and \<open>size_total\<close> are kept as the number of megabytes they print.
\<close>

record job_state =
  status :: string
  progress :: real
  is_audio :: bool
  title :: "string field"
  final_path :: string
  error :: "string option"
  speed :: "real option"
  elapsed :: "real option"
  eta :: "real option"
  size_downloaded :: "real option"
  size_total :: "real option"

text \<open>
  The four global dictionaries and the download folder. \<open>download_progress\<close> is an
  association list in insertion order, since the sweeper walks over its keys; the other
  three are only read and written at one key. \<open>files\<close> holds the regular files of the
  download folder, each under the path by which the program names it, with its
  modification time.
\<close>

record registry =
  download_progress :: "(string \<times> job_state) list"
  download_processes :: "string \<rightharpoonup> nat"
  download_threads :: "string \<rightharpoonup> nat"
  download_cancel_flags :: "string \<rightharpoonup> bool"
  files :: "(string \<times> real) list"

definition DOWNLOAD_FOLDER :: string where
  "DOWNLOAD_FOLDER = ''downloads''"

text \<open>\<open>os.path.join\<close> of two components: an absolute second component stands alone.\<close>

definition path_join :: "string \<Rightarrow> string \<Rightarrow> string" where
  "path_join a b = (case b of CHR ''/'' # _ \<Rightarrow> b | _ \<Rightarrow> a @ ''/'' @ b)"

definition path_exists :: "string \<Rightarrow> registry \<Rightarrow> bool" where
  "path_exists p st \<longleftrightarrow> map_of (files st) p \<noteq> None"

definition os_remove :: "string \<Rightarrow> registry \<Rightarrow> registry" where
  "os_remove p st = st\<lparr>files := AList.delete p (files st)\<rparr>"

definition remove_if_exists :: "string \<Rightarrow> registry \<Rightarrow> registry" where
  "remove_if_exists p st = (if path_exists p st then os_remove p st else st)"

text \<open>
  \<open>download_progress[video_id].update(...)\<close> and the subscript assignments: they raise
  \<open>KeyError\<close> when the job is not in the registry.
\<close>

definition update_job :: "string \<Rightarrow> (job_state \<Rightarrow> job_state) \<Rightarrow> registry \<Rightarrow> exn + registry" where
  "update_job vid f st =
     (case map_of (download_progress st) vid of
        None \<Rightarrow> Inl (KeyError vid)
      | Some j \<Rightarrow> Inr (st\<lparr>download_progress := AList.update vid (f j) (download_progress st)\<rparr>))"

definition job_status :: "registry \<Rightarrow> string \<Rightarrow> string option" where
  "job_status st vid = map_option status (map_of (download_progress st) vid)"

text \<open>What the endpoints answer: the HTTP code and the JSON body or the file sent.\<close>

datatype body =
    Failure string
  | Error_msg string
  | Started string
  | Cancelled_ok
  | File_body string string string
  | State job_state
  | Not_found

datatype response = Http nat body

subsection \<open>Status poll\<close>

definition get_progress :: "string \<Rightarrow> registry \<Rightarrow> response" where
  "get_progress vid st =
     (case map_of (download_progress st) vid of
        Some j \<Rightarrow> Http 200 (State j)
      | None \<Rightarrow> Http 200 Not_found)"

subsection \<open>Cancellation\<close>

definition cancel_msg :: string where
  "cancel_msg = ''Descarga cancelada por el usuario''"

text \<open>
  The files a cancellation removes: \<open>glob\<close> on a pattern that ends in \<open>.*\<close> finds the
  paths that continue the text before the star within the same folder. Job identifiers
  are decimal numerals (see \<open>download\<close>), so the identifier inside the pattern holds no
  wildcard of its own.
\<close>

definition glob_star :: "string \<Rightarrow> registry \<Rightarrow> string list" where
  "glob_star pre st =
     filter (\<lambda>p. starts_with pre p \<and> CHR ''/'' \<notin> set (drop (length pre) p))
       (remdups (map fst (files st)))"

definition cancel_patterns :: "string \<Rightarrow> string list" where
  "cancel_patterns vid =
     [''video_'' @ vid @ ''.'', ''audio_'' @ vid @ ''.'', ''temp_video_'' @ vid @ ''.'',
      ''temp_audio_'' @ vid @ ''.'', vid @ ''_final.'', vid @ ''_temp.'']"

definition cancel_files :: "string \<Rightarrow> registry \<Rightarrow> registry" where
  "cancel_files vid st =
     fold (\<lambda>pat s. fold os_remove (glob_star (path_join DOWNLOAD_FOLDER pat) s) s)
       (cancel_patterns vid) st"

text \<open>Lines 718 to 723: the flag, and the first update of the job.\<close>

definition set_cancel_flag :: "string \<Rightarrow> registry \<Rightarrow> registry" where
  "set_cancel_flag vid st = st\<lparr>download_cancel_flags := (download_cancel_flags st)(vid \<mapsto> True)\<rparr>"

definition cancel_mark :: "string \<Rightarrow> registry \<Rightarrow> exn + registry" where
  "cancel_mark vid st =
     update_job vid
       (\<lambda>j. j\<lparr>status := ''cancelling'', progress := 0, error := Some ''Cancelando descarga...''\<rparr>)
       (set_cancel_flag vid st)"

text \<open>
  Lines 726 to 750: the process tree is killed outside the model; whatever the kill does,
  its exceptions are caught and the \<open>finally\<close> drops the handle.
\<close>

definition cancel_kill :: "string \<Rightarrow> registry \<Rightarrow> registry" where
  "cancel_kill vid st =
     (if download_processes st vid \<noteq> None
      then st\<lparr>download_processes := (download_processes st)(vid := None)\<rparr> else st)"

definition cancel_finish :: "string \<Rightarrow> registry \<Rightarrow> exn + registry" where
  "cancel_finish vid st =
     (case update_job vid
             (\<lambda>j. j\<lparr>status := ''cancelled'', progress := 0, error := Some cancel_msg\<rparr>) st of
        Inl e \<Rightarrow> Inl e
      | Inr st' \<Rightarrow> Inr (st'\<lparr>download_threads := (download_threads st')(vid := None)\<rparr>))"

definition cancel_download :: "string \<Rightarrow> registry \<Rightarrow> response \<times> registry" where
  "cancel_download vid st =
     (if map_of (download_progress st) vid = None
      then (Http 404 (Failure ''Descarga no encontrada''), st)
      else (case cancel_mark vid st of
              Inl e \<Rightarrow> (Http 500 (Failure (str_exn e)), set_cancel_flag vid st)
            | Inr st1 \<Rightarrow>
               (let st2 = cancel_files vid (cancel_kill vid st1) in
                case cancel_finish vid st2 of
                  Inl e \<Rightarrow> (Http 500 (Failure (str_exn e)), st2)
                | Inr st3 \<Rightarrow> (Http 200 Cancelled_ok, st3))))"

subsection \<open>Retention sweeper\<close>

text \<open>
  The first loop of \<open>cleanup_downloads\<close>, over the listing of the folder taken at its
  start. \<open>getmtime\<close> raises on a path that is gone, which ends the whole cycle through
  the outer handler, the removals made so far staying in place.
\<close>

fun sweep_files :: "real \<Rightarrow> string list \<Rightarrow> registry \<Rightarrow> exn option \<times> registry" where
  "sweep_files now [] st = (None, st)"
| "sweep_files now (p # ps) st =
     (case map_of (files st) p of
        None \<Rightarrow> (Some (Exception p), st)
      | Some m \<Rightarrow> sweep_files now ps (if m < now - 3600 then os_remove p st else st))"

definition terminal :: "string \<Rightarrow> bool" where
  "terminal s \<longleftrightarrow> s \<in> set [''completed'', ''error'', ''cancelled'']"

definition sweep_job :: "string \<Rightarrow> registry \<Rightarrow> registry" where
  "sweep_job vid st =
     (case map_of (download_progress st) vid of
        None \<Rightarrow> st
      | Some j \<Rightarrow>
          if terminal (status j)
          then st\<lparr>download_progress := AList.delete vid (download_progress st),
                  download_processes := (download_processes st)(vid := None),
                  download_threads := (download_threads st)(vid := None),
                  download_cancel_flags := (download_cancel_flags st)(vid := None)\<rparr>
          else st)"

definition cleanup_downloads :: "real \<Rightarrow> registry \<Rightarrow> registry" where
  "cleanup_downloads now st =
     (case sweep_files now (remdups (map fst (files st))) st of
        (Some e, st1) \<Rightarrow> st1
      | (None, st1) \<Rightarrow> fold sweep_job (map fst (download_progress st1)) st1)"

text \<open>
  Requests that other threads serve while a worker is under way: a cancellation of a job,
  or a cycle of the sweeper at some time.
\<close>

datatype request = CancelReq string | SweepReq real

fun serve :: "request \<Rightarrow> registry \<Rightarrow> registry" where
  "serve (CancelReq vid) st = snd (cancel_download vid st)"
| "serve (SweepReq now) st = cleanup_downloads now st"

section \<open>Progress tracker\<close>

record ProgressHook =
  video_id :: string
  stage :: string
  start_time :: real

text \<open>The dictionary the extractor passes to a progress hook.\<close>

record event =
  ev_status :: string
  total_bytes :: "real field"
  total_bytes_estimate :: "real field"
  downloaded_bytes :: "real field"
  ev_speed :: "real field"

definition cancel_requested :: "registry \<Rightarrow> string \<Rightarrow> bool" where
  "cancel_requested st vid \<longleftrightarrow> download_cancel_flags st vid = Some True"

definition none_vs_int :: string where
  "none_vs_int = CHR 0x27 # ''>'' @ CHR 0x27 # '' not supported between instances of ''
     @ CHR 0x27 # ''NoneType'' @ CHR 0x27 # '' and '' @ CHR 0x27 # ''int'' @ [CHR 0x27]"

text \<open>
  The update of the job for a \<open>downloading\<close> event with the total \<open>t\<close>, the bytes
  downloaded \<open>dl\<close> and the speed \<open>s\<close>, at the time \<open>now\<close>: lines 46 to 72.
\<close>

definition downloading_update ::
  "ProgressHook \<Rightarrow> real \<Rightarrow> real \<Rightarrow> real \<Rightarrow> real \<Rightarrow> job_state \<Rightarrow> job_state" where
  "downloading_update h t dl s now j =
     (let prog = fl (fl (dl / t) * 100);
          elapsed_time = fl (now - start_time h);
          eta_time = (if 0 < s then fl (fl (t - dl) / s) else 0);
          base_progress = (if stage h = ''video'' then 0
                           else if stage h = ''audio'' then 45 else 90);
          adjusted_progress = fl (base_progress +
            (if stage h \<noteq> ''merging'' then fl (prog * fl 0.45) else fl (prog * fl 0.1)))
      in j\<lparr>status := stage h @ ''_downloading'',
            progress := py_round2 adjusted_progress,
            speed := Some (fl (fl (s / 1024) / 1024)),
            elapsed := Some (py_round2 elapsed_time),
            eta := Some (py_round2 eta_time),
            size_downloaded := Some (fl (fl (dl / 1024) / 1024)),
            size_total := Some (fl (fl (t / 1024) / 1024))\<rparr>)"

text \<open>
  The body of the \<open>try\<close> for a \<open>downloading\<close> event, lines 42 to 79, at the time \<open>now\<close>.
  The comparison \<open>speed > 0\<close> raises \<open>TypeError\<close> when the speed is \<open>None\<close>, before the
  job is updated. The requests \<open>rs\<close> are those that other threads serve between the
  update of the job and the second look at the cancel flag. The result is the exception
  the body raises, if any, and the registry it leaves.
\<close>

definition record_progress ::
  "ProgressHook \<Rightarrow> event \<Rightarrow> real \<Rightarrow> request list \<Rightarrow> registry \<Rightarrow> exn option \<times> registry" where
  "record_progress h d now rs st =
     (let total = py_or (get_or (total_bytes d) 0) (get_or (total_bytes_estimate d) 0);
          downloaded = get_or (downloaded_bytes d) 0;
          spd = get_or (ev_speed d) 0
      in case (total, downloaded) of
           (Some t, Some dl) \<Rightarrow>
             if t \<noteq> 0 \<and> dl \<noteq> 0 then
               (case spd of
                  None \<Rightarrow> (Some (TypeError none_vs_int), st)
                | Some s \<Rightarrow>
                   (case update_job (video_id h) (downloading_update h t dl s now) st of
                      Inl e \<Rightarrow> (Some e, st)
                    | Inr st1 \<Rightarrow>
                       (let st2 = fold serve rs st1 in
                        if cancel_requested st2 (video_id h)
                        then (Some (Exception cancel_msg), st2) else (None, st2))))
             else (None, st)
         | _ \<Rightarrow> (None, st))"

definition assign :: "string \<Rightarrow> (job_state \<Rightarrow> job_state) \<Rightarrow> registry \<Rightarrow> exn option \<times> registry" where
  "assign vid f st = (case update_job vid f st of Inl e \<Rightarrow> (Some e, st) | Inr st' \<Rightarrow> (None, st'))"

text \<open>\<open>ProgressHook.__call__\<close>.\<close>

definition ProgressHook_call ::
  "ProgressHook \<Rightarrow> event \<Rightarrow> real \<Rightarrow> request list \<Rightarrow> registry \<Rightarrow> exn option \<times> registry" where
  "ProgressHook_call h d now rs st =
     (if cancel_requested st (video_id h) then (Some (Exception cancel_msg), st)
      else if ev_status d = ''downloading'' then
        (case record_progress h d now rs st of
           (Some e, st1) \<Rightarrow> if in_str ''cancelled'' (str_exn e) then (Some e, st1) else (None, st1)
         | (None, st1) \<Rightarrow> (None, st1))
      else if ev_status d = ''finished'' then
        (if stage h = ''video'' then
           assign (video_id h) (\<lambda>j. j\<lparr>status := ''downloading_audio''\<rparr>) st
         else if stage h = ''audio'' then
           assign (video_id h) (\<lambda>j. j\<lparr>status := ''merging'', progress := 90\<rparr>) st
         else assign (video_id h) (\<lambda>j. j\<lparr>status := ''completed'', progress := 100\<rparr>) st)
      else if ev_status d = ''error'' then
        assign (video_id h) (\<lambda>j. j\<lparr>status := ''error''\<rparr>) st
      else (None, st))"

section \<open>Extractor adapter\<close>

text \<open>
  One call of the extractor, seen from the program: it reports events to the hook, each
  at some time, while other threads may serve requests in between; then it fails or
  returns the name of the file, having left some files on disk. An exception of the hook
  ends the call at once and is what the call raises.
\<close>

datatype tick = Emit event real "request list" | Meanwhile request

record ydl_run =
  started :: real
  ticks :: "tick list"
  outcome :: "exn + string"
  written :: "(string \<times> real) list"

fun run_ticks :: "ProgressHook \<Rightarrow> tick list \<Rightarrow> registry \<Rightarrow> exn option \<times> registry" where
  "run_ticks h [] st = (None, st)"
| "run_ticks h (Meanwhile r # ts) st = run_ticks h ts (serve r st)"
| "run_ticks h (Emit d now rs # ts) st =
     (case ProgressHook_call h d now rs st of
        (Some e, st1) \<Rightarrow> (Some e, st1)
      | (None, st1) \<Rightarrow> run_ticks h ts st1)"

definition write_files :: "(string \<times> real) list \<Rightarrow> registry \<Rightarrow> registry" where
  "write_files ws st = st\<lparr>files := fold (\<lambda>w fs. AList.update (fst w) (snd w) fs) ws (files st)\<rparr>"

definition ydl_call :: "string \<Rightarrow> string \<Rightarrow> ydl_run \<Rightarrow> registry \<Rightarrow> (exn + string) \<times> registry" where
  "ydl_call vid stg run st =
     (case run_ticks \<lparr>video_id = vid, stage = stg, start_time = started run\<rparr> (ticks run) st of
        (Some e, st1) \<Rightarrow> (Inl e, st1)
      | (None, st1) \<Rightarrow> (outcome run, write_files (written run) st1))"

section \<open>Job orchestrator\<close>

subsection \<open>Two-stream path: \<open>download_and_merge\<close>\<close>

text \<open>\<open>os.path.splitext(p)[0]\<close>: the path without the extension of its last component.\<close>

definition splitext_root :: "string \<Rightarrow> string" where
  "splitext_root p =
     (let name = rev (takeWhile (\<lambda>c. c \<noteq> CHR ''/'') (rev p));
          dir = take (length p - length name) p;
          lead = takeWhile (\<lambda>c. c = CHR ''.'') name;
          rest = dropWhile (\<lambda>c. c = CHR ''.'') name
      in if CHR ''.'' \<in> set rest
         then dir @ lead @ rev (tl (dropWhile (\<lambda>c. c \<noteq> CHR ''.'') (rev rest)))
         else p)"

text \<open>
  What the collaborators do during one run of \<open>download_and_merge\<close>: the two calls of
  the extractor, whether \<open>Popen\<close> raises or gives a process, the modification time of
  the output file if the encoder leaves one, the requests other threads serve while
  \<open>communicate\<close> waits, and the exit code and error output of the encoder.
\<close>

record merge_script =
  video_run :: ydl_run
  audio_run :: ydl_run
  popen :: "exn + nat"
  ffmpeg_output :: "real option"
  during_merge :: "request list"
  returncode :: int
  stderr :: string

text \<open>
  The handler of a download stage, lines 372 to 378 and 398 to 404: it returns the
  exception that leaves the handler.
\<close>

definition stage_handler :: "string \<Rightarrow> string \<Rightarrow> exn \<Rightarrow> registry \<Rightarrow> exn \<times> registry" where
  "stage_handler vid label e st =
     (if \<not> in_str ''cancelled'' (str_exn e) then
        (case update_job vid (\<lambda>j. j\<lparr>status := ''error'', error := Some (label @ str_exn e)\<rparr>) st of
           Inl k \<Rightarrow> (k, st)
         | Inr st1 \<Rightarrow> (e, st1))
      else (e, st))"

text \<open>
  One download stage: the exception raised if any, the path of the file once
  \<open>prepare_filename\<close> has given it, and the registry.
\<close>

definition download_stage ::
  "string \<Rightarrow> string \<Rightarrow> string \<Rightarrow> ydl_run \<Rightarrow> registry \<Rightarrow> exn option \<times> string option \<times> registry" where
  "download_stage vid stg label run st =
     (case ydl_call vid stg run st of
        (Inl e, st1) \<Rightarrow>
          (case stage_handler vid label e st1 of (e', st2) \<Rightarrow> (Some e', None, st2))
      | (Inr path, st1) \<Rightarrow>
          if job_status st1 vid = Some ''cancelled''
          then (case stage_handler vid label (Exception cancel_msg) st1 of
                  (e', st2) \<Rightarrow> (Some e', Some path, st2))
          else (None, Some path, st1))"

text \<open>Lines 407 to 482: the merge by the encoder and the final commit.\<close>

definition drop_process :: "string \<Rightarrow> registry \<Rightarrow> registry" where
  "drop_process vid st =
     (if download_processes st vid \<noteq> None
      then st\<lparr>download_processes := (download_processes st)(vid := None)\<rparr> else st)"

definition merge_stage ::
  "string \<Rightarrow> string \<Rightarrow> merge_script \<Rightarrow> registry \<Rightarrow> exn option \<times> registry" where
  "merge_stage out vid sc st =
     (case update_job vid (\<lambda>j. j\<lparr>status := ''merging'', progress := 90\<rparr>) st of
        Inl e \<Rightarrow> (Some e, st)
      | Inr st1 \<Rightarrow>
         (case popen sc of
            Inl e \<Rightarrow> (Some e, st1)
          | Inr pid \<Rightarrow>
             (let st2 = st1\<lparr>download_processes := (download_processes st1)(vid \<mapsto> pid)\<rparr>;
                  st3 = fold serve (during_merge sc)
                          (write_files (case ffmpeg_output sc of None \<Rightarrow> []
                                        | Some m \<Rightarrow> [(out, m)]) st2)
              in if map_of (download_progress st3) vid \<noteq> None
                    \<and> (job_status st3 vid = Some ''cancelled'' \<or> returncode sc \<noteq> 0)
                 then
                   (let error_msg = (if job_status st3 vid = Some ''cancelled'' then cancel_msg
                                     else ''Error en FFmpeg: '' @ stderr sc)
                    in if \<not> in_str ''cancelled'' error_msg
                       then (case update_job vid
                                    (\<lambda>j. j\<lparr>status := ''error'', error := Some error_msg\<rparr>) st3 of
                               Inl e \<Rightarrow> (Some e, st3)
                             | Inr st4 \<Rightarrow> (Some (Exception error_msg), st4))
                       else (Some (Exception error_msg), st3))
                 else assign vid (\<lambda>j. j\<lparr>status := ''completed'', progress := 100\<rparr>)
                        (drop_process vid st3))))"

text \<open>The body of the outer \<open>try\<close>, with the two temporary paths as far as they are known.\<close>

definition merge_body ::
  "string \<Rightarrow> string \<Rightarrow> merge_script \<Rightarrow> registry \<Rightarrow> exn option \<times> string option \<times> string option \<times> registry" where
  "merge_body out vid sc st =
     (case download_stage vid ''video'' ''Error descargando video: '' (video_run sc) st of
        (Some e, vp, st1) \<Rightarrow> (Some e, vp, None, st1)
      | (None, vp, st1) \<Rightarrow>
         (case download_stage vid ''audio'' ''Error descargando audio: '' (audio_run sc) st1 of
            (Some e, ap, st2) \<Rightarrow> (Some e, vp, ap, st2)
          | (None, ap, st2) \<Rightarrow>
             (case merge_stage out vid sc st2 of (r, st3) \<Rightarrow> (r, vp, ap, st3))))"

text \<open>The outer handler, lines 484 to 488, and the \<open>finally\<close>, lines 490 to 509.\<close>

definition outer_handler :: "string \<Rightarrow> exn \<Rightarrow> registry \<Rightarrow> registry" where
  "outer_handler vid e st =
     (if \<not> in_str ''cancelled'' (str_exn e) \<and> map_of (download_progress st) vid \<noteq> None
      then (case update_job vid (\<lambda>j. j\<lparr>status := ''error'', error := Some (str_exn e)\<rparr>) st of
              Inl k \<Rightarrow> st | Inr st1 \<Rightarrow> st1)
      else st)"

definition remove_temp :: "string option \<Rightarrow> registry \<Rightarrow> registry" where
  "remove_temp path st =
     (case path of None \<Rightarrow> st | Some p \<Rightarrow> if p \<noteq> [] then remove_if_exists p st else st)"

definition download_and_merge ::
  "string \<Rightarrow> string \<Rightarrow> merge_script \<Rightarrow> registry \<Rightarrow> (exn + bool) \<times> registry" where
  "download_and_merge output_path vid sc st =
     (case merge_body (splitext_root output_path @ ''.mp4'') vid sc st of
        (r, video_path, audio_path, st1) \<Rightarrow>
          (let st2 = (case r of None \<Rightarrow> st1 | Some e \<Rightarrow> outer_handler vid e st1);
               st3 = drop_process vid (remove_temp audio_path (remove_temp video_path st2))
           in (case r of None \<Rightarrow> Inr True | Some e \<Rightarrow> Inl e, st3)))"

subsection \<open>Single-file path: submission and \<open>download_thread\<close>\<close>

text \<open>The job identifier: the time of the submission, cut to whole seconds, in decimal.\<close>

definition video_id_at :: "real \<Rightarrow> string" where
  "video_id_at now = str_int (py_int now)"

text \<open>
  The JSON body of a submission, with \<open>None\<close> for a key that is absent and the values
  taken to be strings, and the metadata the extractor returns for the URL.
\<close>

record submission =
  url :: "string option"
  sub_itag :: "string option"

record video_info =
  info_title :: "string field"
  formats :: "format list field"

definition new_job :: "bool \<Rightarrow> string field \<Rightarrow> string \<Rightarrow> job_state" where
  "new_job audio t path =
     \<lparr> status = ''starting'', progress = 0, is_audio = audio, title = t, final_path = path,
       error = None, speed = None, elapsed = None, eta = None,
       size_downloaded = None, size_total = None \<rparr>"

definition register_job :: "string \<Rightarrow> job_state \<Rightarrow> nat \<Rightarrow> registry \<Rightarrow> registry" where
  "register_job vid j thread st =
     st\<lparr>download_progress := AList.update vid j (download_progress st),
        download_threads := (download_threads st)(vid \<mapsto> thread)\<rparr>"

definition none_has_no_get :: string where
  "none_has_no_get = CHR 0x27 # ''NoneType'' @ CHR 0x27 # '' object has no attribute ''
     @ CHR 0x27 # ''get'' @ [CHR 0x27]"

definition none_not_iterable :: string where
  "none_not_iterable = CHR 0x27 # ''NoneType'' @ CHR 0x27 # '' object is not iterable''"

text \<open>
  \<open>download\<close>, at the time \<open>now\<close>, with what the extractor answers for the URL and the
  worker thread it starts. Every exception ends in the answer 500.
\<close>

definition download ::
  "submission option \<Rightarrow> real \<Rightarrow> exn + video_info \<Rightarrow> nat \<Rightarrow> registry \<Rightarrow> response \<times> registry" where
  "download data now extracted thread st =
     (case data of
        None \<Rightarrow> (Http 400 (Failure ''Datos incompletos''), st)
      | Some d \<Rightarrow>
         (case (url d, sub_itag d) of
            (Some u, Some it) \<Rightarrow>
              (let vid = video_id_at now in
               case extracted of
                 Inl e \<Rightarrow> (Http 500 (Failure (str_exn e)), st)
               | Inr info \<Rightarrow>
                  (case formats info of
                     Absent \<Rightarrow> (Http 500 (Failure (str_exn (KeyError ''formats''))), st)
                   | Null \<Rightarrow> (Http 500 (Failure none_not_iterable), st)
                   | Val fs \<Rightarrow>
                      (case find_format it fs of
                         None \<Rightarrow> (Http 500 (Failure none_has_no_get), st)
                       | Some selected_format \<Rightarrow>
                          if get (vcodec selected_format) = Some ''none''
                          then (Http 200 (Started vid),
                                register_job vid
                                  (new_job True
                                     (case get_or (info_title info) [] of
                                        None \<Rightarrow> Null | Some t \<Rightarrow> Val t)
                                     (path_join DOWNLOAD_FOLDER (vid @ ''_final.mp3'')))
                                  thread st)
                          else (Http 200 (Started vid),
                                register_job vid
                                  (new_job False Absent
                                     (path_join DOWNLOAD_FOLDER (''video_'' @ vid @ ''.mp4'')))
                                  thread st))))
          | _ \<Rightarrow> (Http 400 (Failure ''Datos incompletos''), st)))"

text \<open>\<open>shutil.move\<close> of a file within the folder.\<close>

definition shutil_move :: "string \<Rightarrow> string \<Rightarrow> registry \<Rightarrow> registry" where
  "shutil_move src dst st =
     (case map_of (files st) src of
        None \<Rightarrow> st
      | Some m \<Rightarrow> st\<lparr>files := AList.update dst m (AList.delete src (files st))\<rparr>)"

text \<open>
  The worker of a submitted job. The result is the exception that escapes the thread, if
  any: the handler itself raises when the job has left the registry.
\<close>

definition download_thread :: "string \<Rightarrow> bool \<Rightarrow> ydl_run \<Rightarrow> registry \<Rightarrow> exn option \<times> registry" where
  "download_thread vid is_audio_only run st =
     (let final = path_join DOWNLOAD_FOLDER (vid @ ''_final.mp3'');
          temp_mp3 = path_join DOWNLOAD_FOLDER (vid @ ''_temp'') @ ''.mp3'';
          body = (case ydl_call vid ''video'' run st of
                    (Inl e, st1) \<Rightarrow> (Some e, st1)
                  | (Inr _, st1) \<Rightarrow>
                      assign vid (\<lambda>j. j\<lparr>status := ''completed'', progress := 100\<rparr>)
                        (if is_audio_only \<and> path_exists temp_mp3 st1
                         then shutil_move temp_mp3 final st1 else st1))
      in case body of
           (None, st2) \<Rightarrow> (None, st2)
         | (Some e, st2) \<Rightarrow>
             assign vid (\<lambda>j. j\<lparr>status := ''error'', error := Some (str_exn e)\<rparr>) st2)"

subsection \<open>Artifact fetch\<close>

text \<open>
  The title is cleaned character by character; titles are taken to be ASCII, on which
  \<open>isalnum\<close> holds of the letters and the digits.
\<close>

definition py_isalnum :: "char \<Rightarrow> bool" where
  "py_isalnum c \<longleftrightarrow>
     c \<in> set ''0123456789abcdefghijklmnopqrstuvwxyzABCDEFGHIJKLMNOPQRSTUVWXYZ''"

definition safe_title :: "string \<Rightarrow> string" where
  "safe_title t =
     rev (dropWhile (\<lambda>c. c = CHR '' '')
            (rev (filter (\<lambda>c. py_isalnum c \<or> c \<in> set '' -_|.'') t)))"

definition not_yet_completed :: string where
  "not_yet_completed = ''Archivo a'' @ [CHR 0xC3, CHR 0xBA] @ ''n no completado''"

definition get_video :: "string \<Rightarrow> registry \<Rightarrow> response" where
  "get_video vid st =
     (case map_of (download_progress st) vid of
        None \<Rightarrow> Http 404 (Error_msg ''Archivo no encontrado'')
      | Some j \<Rightarrow>
          if status j \<noteq> ''completed'' then Http 400 (Error_msg not_yet_completed)
          else if final_path j = [] \<or> \<not> path_exists (final_path j) st
          then Http 404 (Error_msg ''Archivo no encontrado'')
          else (case get_or (title j) ''download'' of
                  None \<Rightarrow> Http 500 (Error_msg none_not_iterable)
                | Some t \<Rightarrow>
                    Http 200 (File_body (final_path j)
                      (if is_audio j then ''audio/mpeg'' else ''video/mp4'')
                      (''Angel Downloader | '' @ safe_title t
                         @ (if is_audio j then ''.mp3'' else ''.mp4'')))))"

text \<open>
  \<open>on_close\<close>, the callback that \<open>get_video\<close> registers on the response with
  \<open>call_on_close\<close>.
\<close>

definition on_close :: "string \<Rightarrow> string \<Rightarrow> registry \<Rightarrow> registry" where
  "on_close vid path st =
     fold (\<lambda>e s. remove_if_exists (path_join DOWNLOAD_FOLDER vid @ e) s)
       [''.mp3'', ''.webm'', ''.m4a'', ''_temp'', ''_temp.mp3'', ''.mp4'']
       (remove_if_exists path st)"

text \<open>
  A fetch as the server carries it out. \<open>send_file\<close> answers with a response in direct
  passthrough: the server iterates over the file wrapper inside the response and closes
  that wrapper, not the response, so the callbacks registered with \<open>call_on_close\<close>,
  here \<open>on_close\<close>, are never run. The registry and the folder are after the fetch as
  they were before it.
\<close>

definition fetch_artifact :: "string \<Rightarrow> registry \<Rightarrow> response \<times> registry" where
  "fetch_artifact vid st = (get_video vid st, st)"

section \<open>Definitions used in the statements and proofs\<close>

text \<open>All entries of a result of \<open>process_formats\<close>, and the invariant of its loop.\<close>

definition all_infos :: "processed \<Rightarrow> format_info list" where
  "all_infos p = combined p @ videoOnly p @ audioOnly p"

definition sorted_out :: "string set \<times> processed \<Rightarrow> bool" where
  "sorted_out acc \<longleftrightarrow>
     (\<forall>e\<in>set (combined (snd acc)). info_vcodec e \<noteq> Some ''none'' \<and> info_acodec e \<noteq> Some ''none'')
   \<and> (\<forall>e\<in>set (videoOnly (snd acc)). info_vcodec e \<noteq> Some ''none'' \<and> info_acodec e = Some ''none'')
   \<and> (\<forall>e\<in>set (audioOnly (snd acc)). info_vcodec e = Some ''none'' \<and> info_acodec e \<noteq> Some ''none'')
   \<and> distinct (map quality_key (all_infos (snd acc)))
   \<and> quality_key ` set (all_infos (snd acc)) \<subseteq> fst acc"

text \<open>A listing of formats to run the functions on.\<close>

definition example_format ::
  "string \<Rightarrow> string field \<Rightarrow> string \<Rightarrow> string field \<Rightarrow> string field \<Rightarrow> real field \<Rightarrow> format" where
  "example_format i r e v a s =
     \<lparr> format_id = Val i, resolution = r, format_note = Absent, ext = Val e,
       filesize = s, vcodec = v, acodec = a, fps = Absent \<rparr>"

definition example_formats :: "format list" where
  "example_formats =
     [example_format ''18'' (Val ''640x360'') ''mp4'' (Val ''avc1'') (Val ''mp4a'') (Val 5000),
      example_format ''137'' (Val ''1920x1080'') ''mp4'' (Val ''avc1'') (Val ''none'') (Val 90000),
      example_format ''139'' (Val ''audio only'') ''m4a'' (Val ''none'') (Val ''mp4a'') (Val 1000),
      example_format ''140'' (Val ''audio only'') ''m4a'' (Val ''none'') (Val ''mp4a'') (Val 3000),
      example_format ''251'' (Val ''audio only'') ''webm'' (Val ''none'') (Val ''opus'') Null,
      example_format ''sb0'' Absent ''mhtml'' (Val ''none'') (Val ''none'') Absent]"

text \<open>
  A registry to run the operations on: empty at first, then with one video job submitted
  at the time 1000.5, whose identifier is \<open>1000\<close>, and with that job completed and its
  file on disk.
\<close>

definition empty_registry :: registry where
  "empty_registry =
     \<lparr> download_progress = [], download_processes = Map.empty, download_threads = Map.empty,
       download_cancel_flags = Map.empty, files = [] \<rparr>"

definition example_info :: video_info where
  "example_info = \<lparr> info_title = Val ''Song'', formats = Val example_formats \<rparr>"

definition example_submission :: "string \<Rightarrow> submission option" where
  "example_submission i = Some \<lparr> url = Some ''https://example.org/v'', sub_itag = Some i \<rparr>"

definition submitted :: registry where
  "submitted = snd (download (example_submission ''18'') (2001 / 2) (Inr example_info) 1
                      empty_registry)"

text \<open>The jobs of a registry that the sweeper removes.\<close>

definition swept :: "registry \<Rightarrow> string \<Rightarrow> bool" where
  "swept st vid \<longleftrightarrow> (\<exists>j. map_of (download_progress st) vid = Some j \<and> terminal (status j))"

definition example_event :: "string \<Rightarrow> real field \<Rightarrow> real field \<Rightarrow> real field \<Rightarrow> event" where
  "example_event s t d v =
     \<lparr> ev_status = s, total_bytes = t, total_bytes_estimate = Absent, downloaded_bytes = d,
       ev_speed = v \<rparr>"

definition example_run :: ydl_run where
  "example_run =
     \<lparr> started = 1001,
       ticks = [Emit (example_event ''downloading'' (Val 100) (Val 50) (Val 10)) 1002 [],
                Emit (example_event ''finished'' (Val 100) (Val 100) Absent) 1003 []],
       outcome = Inr ''downloads/video_1000.mp4'',
       written = [(''downloads/video_1000.mp4'', 1003)] \<rparr>"

definition finished :: registry where
  "finished = snd (download_thread ''1000'' False example_run submitted)"

text \<open>
  Two submissions within one second: an audio job at the time 1000.5 and a video job at
  the time 1000.75.
\<close>

definition submitted_audio :: registry where
  "submitted_audio = snd (download (example_submission ''140'') (2001 / 2) (Inr example_info) 1
                            empty_registry)"

definition submitted_twice :: registry where
  "submitted_twice = snd (download (example_submission ''18'') (4003 / 4) (Inr example_info) 2
                            submitted_audio)"

definition example_hook :: "string \<Rightarrow> ProgressHook" where
  "example_hook s = \<lparr> video_id = ''1000'', stage = s, start_time = 1001 \<rparr>"

text \<open>
  Runs of the two-stream path on the submitted job. A stage is either undisturbed or has
  the job cancelled by another thread before its last event; the merge is either
  undisturbed or has the job cancelled while the worker waits for the encoder.
\<close>

definition example_stage :: "string \<Rightarrow> bool \<Rightarrow> ydl_run" where
  "example_stage path cancelled =
     \<lparr> started = 1001,
       ticks = [Emit (example_event ''downloading'' (Val 100) (Val 50) (Val 10)) 1002 []]
               @ (if cancelled then [Meanwhile (CancelReq ''1000'')] else [])
               @ [Emit (example_event ''downloading'' (Val 100) (Val 100) (Val 10)) 1003 []],
       outcome = Inr path,
       written = [(path, 1003)] \<rparr>"

definition example_merge :: "bool \<Rightarrow> bool \<Rightarrow> bool \<Rightarrow> merge_script" where
  "example_merge cv ca cm =
     \<lparr> video_run = example_stage ''downloads/temp_video_1000.mp4'' cv,
       audio_run = example_stage ''downloads/temp_audio_1000.m4a'' ca,
       popen = Inr 4242,
       ffmpeg_output = Some 1010,
       during_merge = (if cm then [CancelReq ''1000''] else []),
       returncode = (if cm then - 9 else 0),
       stderr = [] \<rparr>"

text \<open>
  Writes of the \<open>error\<close> field, seen from the registry before and after an operation: a
  message is stored under a job that was not its message before. \<open>same_errors\<close> says
  that no job changes its \<open>error\<close> field, appears or disappears. A run of the extractor
  is \<open>quiet\<close> when no other thread serves a request during it.
\<close>

definition error_written :: "registry \<Rightarrow> registry \<Rightarrow> string \<Rightarrow> bool" where
  "error_written st st' vid \<longleftrightarrow>
     (\<exists>j' m. map_of (download_progress st') vid = Some j' \<and> error j' = Some m
        \<and> map_option error (map_of (download_progress st) vid) \<noteq> Some (Some m))"

definition same_errors :: "registry \<Rightarrow> registry \<Rightarrow> bool" where
  "same_errors st st' \<longleftrightarrow>
     (\<forall>vid. map_option error (map_of (download_progress st') vid)
            = map_option error (map_of (download_progress st) vid))"

fun quiet :: "tick list \<Rightarrow> bool" where
  "quiet [] = True"
| "quiet (Emit d now rs # ts) = (rs = [] \<and> quiet ts)"
| "quiet (Meanwhile r # ts) = False"

text \<open>Every message stored by an operation is stored under a job left with the status \<open>error\<close>.\<close>

definition errors_marked :: "registry \<Rightarrow> registry \<Rightarrow> bool" where
  "errors_marked st st' \<longleftrightarrow>
     (\<forall>vid. error_written st st' vid \<longrightarrow> job_status st' vid = Some ''error'')"

text \<open>An undisturbed run of the extractor that fails after its first event.\<close>

definition example_failure :: ydl_run where
  "example_failure =
     \<lparr> started = 1001,
       ticks = [Emit (example_event ''downloading'' (Val 100) (Val 50) (Val 10)) 1002 []],
       outcome = Inl (Exception ''HTTP Error 403: Forbidden''),
       written = [] \<rparr>"





section \<open>Format resolution\<close>
















section \<open>Format listing\<close>

lemma process_one_inv: "sorted_out acc \<Longrightarrow> sorted_out (process_one f acc)"
  unfolding sorted_out_def process_one_def all_infos_def Let_def
  by (cases acc) (auto simp: image_Un)

lemma fold_process_one_inv: "sorted_out acc \<Longrightarrow> sorted_out (fold process_one fs acc)"
  by (induction fs arbitrary: acc) (simp_all add: process_one_inv)

lemma process_one_from:
  "set (all_infos (snd (process_one f acc))) \<subseteq> insert (make_info f) (set (all_infos (snd acc)))"
  unfolding process_one_def all_infos_def Let_def by (cases acc) auto

lemma fold_process_one_from:
  "set (all_infos (snd (fold process_one fs acc))) \<subseteq> make_info ` set fs \<union> set (all_infos (snd acc))"
proof (induction fs arbitrary: acc)
  case Nil
  show ?case by simp
next
  case (Cons f fs)
  show ?case using Cons.IH[of "process_one f acc"] process_one_from[of f acc] by auto
qed

lemma sort_infos_keys:
  assumes "sort_infos xs = Inr ys"
  shows "distinct (map quality_key ys) = distinct (map quality_key xs)" and "set ys = set xs"
proof -
  from assms have ys: "ys = sort_key (\<lambda>i. (- size_key (raw_size i), - fps_key i)) xs"
    by (auto simp: sort_infos_def split: if_splits)
  show "set ys = set xs" unfolding ys by simp
  show "distinct (map quality_key ys) = distinct (map quality_key xs)"
    unfolding ys by (simp add: distinct_map)
qed

lemma key_of_pair:
  "(quality a, container a) = (quality b, container b) \<Longrightarrow> quality_key a = quality_key b"
  by (simp add: quality_key_def)

lemma distinct_pairs:
  assumes "distinct (map quality_key xs)"
  shows "distinct (map (\<lambda>e. (quality e, container e)) xs)"
proof -
  from assms have d: "distinct xs" and i: "inj_on quality_key (set xs)"
    by (simp_all add: distinct_map)
  have "inj_on (\<lambda>e. (quality e, container e)) (set xs)"
  proof (rule inj_onI)
    fix a b
    assume "a \<in> set xs" "b \<in> set xs" "(quality a, container a) = (quality b, container b)"
    then show "a = b" using i key_of_pair[of a b] by (auto dest: inj_onD)
  qed
  with d show ?thesis by (simp add: distinct_map)
qed

text \<open>
  Claim C10. When \<open>process_formats\<close> returns, every entry of \<open>combined\<close> has a video and an
  audio codec other than \<open>none\<close>, every entry of \<open>videoOnly\<close> a video codec other than
  \<open>none\<close> and the audio codec \<open>none\<close>, every entry of \<open>audioOnly\<close> the video codec \<open>none\<close>
  and an audio codec other than \<open>none\<close>; no two entries of the three lists together
  share the pair of quality and container; every entry stems from a format of the input,
  and a format with neither codec has no entry.
\<close>

theorem process_formats_partition:
  assumes "process_formats fs = Inr out"
  shows "(\<forall>e\<in>set (combined out). info_vcodec e \<noteq> Some ''none'' \<and> info_acodec e \<noteq> Some ''none'')
       \<and> (\<forall>e\<in>set (videoOnly out). info_vcodec e \<noteq> Some ''none'' \<and> info_acodec e = Some ''none'')
       \<and> (\<forall>e\<in>set (audioOnly out). info_vcodec e = Some ''none'' \<and> info_acodec e \<noteq> Some ''none'')
       \<and> distinct (map (\<lambda>e. (quality e, container e)) (combined out @ videoOnly out @ audioOnly out))
       \<and> set (combined out @ videoOnly out @ audioOnly out) \<subseteq> make_info ` set fs
       \<and> (\<forall>f\<in>set fs. get_or (vcodec f) ''none'' = Some ''none''
                      \<and> get_or (acodec f) ''none'' = Some ''none''
             \<longrightarrow> make_info f \<notin> set (combined out @ videoOnly out @ audioOnly out))"
proof -
  define acc where
    "acc = fold process_one fs ({}, \<lparr>videoOnly = [], audioOnly = [], combined = []\<rparr>)"
  define p where "p = snd acc"
  have "sorted_out ({}, \<lparr>videoOnly = [], audioOnly = [], combined = []\<rparr>)"
    by (simp add: sorted_out_def all_infos_def)
  then have inv: "sorted_out acc" unfolding acc_def by (rule fold_process_one_inv)
  have src: "set (all_infos p) \<subseteq> make_info ` set fs"
    using fold_process_one_from[of fs "({}, \<lparr>videoOnly = [], audioOnly = [], combined = []\<rparr>)"]
    unfolding p_def acc_def by (simp add: all_infos_def)
  from assms obtain v a c where
    v: "sort_infos (videoOnly p) = Inr v" and a: "sort_infos (audioOnly p) = Inr a"
    and c: "sort_infos (combined p) = Inr c"
    and out: "out = \<lparr>videoOnly = v, audioOnly = a, combined = c\<rparr>"
    unfolding process_formats_def p_def acc_def Let_def by (auto split: sum.splits)
  note sv = sort_infos_keys[OF v] and sa = sort_infos_keys[OF a] and sc = sort_infos_keys[OF c]
  have sets: "set (combined out) = set (combined p)" "set (videoOnly out) = set (videoOnly p)"
    "set (audioOnly out) = set (audioOnly p)"
    using sv sa sc out by simp_all
  have cls:
    "\<forall>e\<in>set (combined out). info_vcodec e \<noteq> Some ''none'' \<and> info_acodec e \<noteq> Some ''none''"
    "\<forall>e\<in>set (videoOnly out). info_vcodec e \<noteq> Some ''none'' \<and> info_acodec e = Some ''none''"
    "\<forall>e\<in>set (audioOnly out). info_vcodec e = Some ''none'' \<and> info_acodec e \<noteq> Some ''none''"
    using inv unfolding sorted_out_def sets p_def by blast+
  have "distinct (map quality_key (all_infos p))"
    using inv unfolding sorted_out_def p_def by blast
  then have "distinct (map quality_key (combined out @ videoOnly out @ audioOnly out))"
    using sv sa sc unfolding all_infos_def out by simp
  then have dis:
    "distinct (map (\<lambda>e. (quality e, container e)) (combined out @ videoOnly out @ audioOnly out))"
    by (rule distinct_pairs)
  have sub: "set (combined out @ videoOnly out @ audioOnly out) \<subseteq> make_info ` set fs"
    using src sets by (simp add: all_infos_def)
  have none: "\<forall>f\<in>set fs. get_or (vcodec f) ''none'' = Some ''none''
                        \<and> get_or (acodec f) ''none'' = Some ''none''
             \<longrightarrow> make_info f \<notin> set (combined out @ videoOnly out @ audioOnly out)"
  proof (intro ballI impI)
    fix f
    assume "f \<in> set fs"
      and n: "get_or (vcodec f) ''none'' = Some ''none'' \<and> get_or (acodec f) ''none'' = Some ''none''"
    then have "info_vcodec (make_info f) = Some ''none''" "info_acodec (make_info f) = Some ''none''"
      by (simp_all add: make_info_def)
    then show "make_info f \<notin> set (combined out @ videoOnly out @ audioOnly out)"
      using cls by auto
  qed
  from cls dis sub none show ?thesis by blast
qed

lemma process_formats_example:
  "process_formats example_formats =
     Inr \<lparr>videoOnly = [make_info (example_formats ! 1)],
          audioOnly = [make_info (example_formats ! 2), make_info (example_formats ! 4)],
          combined = [make_info (example_formats ! 0)]\<rparr>"
  by (simp add: process_formats_def example_formats_def example_format_def process_one_def
      make_info_def quality_key_def py_str_def get_or_def get_def truthy_str_def truthy_num_def
      sort_infos_def sort_clash_def size_key_def py_int_def fps_key_def format_size_def Let_def)

theorem process_formats_partition_witness:
  "process_formats example_formats =
     Inr \<lparr>videoOnly = [make_info (example_formats ! 1)],
          audioOnly = [make_info (example_formats ! 2), make_info (example_formats ! 4)],
          combined = [make_info (example_formats ! 0)]\<rparr>
   \<and> distinct (map (\<lambda>e. (quality e, container e))
        [make_info (example_formats ! 0), make_info (example_formats ! 1),
         make_info (example_formats ! 2), make_info (example_formats ! 4)])
   \<and> make_info (example_formats ! 5)
        \<notin> set [make_info (example_formats ! 0), make_info (example_formats ! 1),
               make_info (example_formats ! 2), make_info (example_formats ! 4)]"
  using process_formats_partition [OF process_formats_example] process_formats_example
  by (simp add: example_formats_def example_format_def get_or_def)

section \<open>Cancellation supervisor\<close>

lemma os_remove_keeps [simp]:
  "download_progress (os_remove p st) = download_progress st"
  "download_processes (os_remove p st) = download_processes st"
  "download_threads (os_remove p st) = download_threads st"
  "download_cancel_flags (os_remove p st) = download_cancel_flags st"
  by (simp_all add: os_remove_def)

lemma fold_os_remove_keeps [simp]:
  "download_progress (fold os_remove ps st) = download_progress st"
  "download_processes (fold os_remove ps st) = download_processes st"
  "download_threads (fold os_remove ps st) = download_threads st"
  "download_cancel_flags (fold os_remove ps st) = download_cancel_flags st"
  by (induction ps arbitrary: st) simp_all

lemma cancel_files_keeps [simp]:
  "download_progress (cancel_files vid st) = download_progress st"
  "download_processes (cancel_files vid st) = download_processes st"
  "download_threads (cancel_files vid st) = download_threads st"
  "download_cancel_flags (cancel_files vid st) = download_cancel_flags st"
  by (simp_all add: cancel_files_def cancel_patterns_def)

lemma cancel_kill_keeps [simp]:
  "download_progress (cancel_kill vid st) = download_progress st"
  "download_threads (cancel_kill vid st) = download_threads st"
  "download_cancel_flags (cancel_kill vid st) = download_cancel_flags st"
  "files (cancel_kill vid st) = files st"
  by (simp_all add: cancel_kill_def)

lemma update_job_Some:
  "map_of (download_progress st) vid = Some j \<Longrightarrow>
   update_job vid f st = Inr (st\<lparr>download_progress := AList.update vid (f j) (download_progress st)\<rparr>)"
  by (simp add: update_job_def)

lemma update_job_None:
  "map_of (download_progress st) vid = None \<Longrightarrow> update_job vid f st = Inl (KeyError vid)"
  by (simp add: update_job_def)


lemma cancel_download_present:
  assumes "map_of (download_progress st) vid = Some j"
  shows "fst (cancel_download vid st) = Http 200 Cancelled_ok"
    and "download_progress (snd (cancel_download vid st)) =
           AList.update vid (j\<lparr>status := ''cancelled'', progress := 0, error := Some cancel_msg\<rparr>)
             (download_progress st)"
    and "download_cancel_flags (snd (cancel_download vid st)) = (download_cancel_flags st)(vid \<mapsto> True)"
    and "download_threads (snd (cancel_download vid st)) = (download_threads st)(vid := None)"
    and "download_processes (snd (cancel_download vid st)) = (download_processes st)(vid := None)"
  using assms
  by (auto simp: cancel_download_def cancel_mark_def cancel_finish_def set_cancel_flag_def
      update_job_def AList.update_conv' Let_def cancel_kill_def fun_upd_idem)

lemma cancel_download_absent:
  "map_of (download_progress st) vid = None \<Longrightarrow>
   cancel_download vid st = (Http 404 (Failure ''Descarga no encontrada''), st)"
  by (simp add: cancel_download_def)

text \<open>
  Claim C2. \<open>cancel_download\<close> answers 404 exactly when the job is not in the registry.
  For a job of the registry it answers 200, and the job then has the status \<open>cancelled\<close>
  and the progress 0, whatever its state was before, also right after the submission.
\<close>

theorem cancel_download_outcome:
  "((\<exists>b. fst (cancel_download vid st) = Http 404 b) \<longleftrightarrow> map_of (download_progress st) vid = None)
   \<and> (map_of (download_progress st) vid \<noteq> None \<longrightarrow>
        fst (cancel_download vid st) = Http 200 Cancelled_ok
        \<and> (\<exists>j. map_of (download_progress (snd (cancel_download vid st))) vid = Some j
               \<and> status j = ''cancelled'' \<and> progress j = 0))"
proof (cases "map_of (download_progress st) vid")
  case None
  then show ?thesis by (simp add: cancel_download_absent)
next
  case (Some j)
  note c = cancel_download_present[OF Some]
  show ?thesis using Some c(1) by (simp add: c(2) AList.update_conv')
qed

lemma str_nat_1000: "str_nat 1000 = ''1000''"
  by (simp add: str_nat.simps digit_char_def)

lemma video_id_example: "video_id_at (2001 / 2) = ''1000''" "video_id_at (4003 / 4) = ''1000''"
  by (simp_all add: video_id_at_def py_int_def str_int_def str_nat_1000)

lemma submitted_eq:
  "submitted = empty_registry
     \<lparr>download_progress := [(''1000'', new_job False Absent ''downloads/video_1000.mp4'')],
      download_threads := [''1000'' \<mapsto> 1]\<rparr>"
  by (simp add: submitted_def download_def example_submission_def example_info_def
      example_formats_def example_format_def get_def register_job_def video_id_example
      empty_registry_def path_join_def DOWNLOAD_FOLDER_def Let_def)

theorem cancel_download_outcome_witness:
  "map_of (download_progress submitted) ''1000'' \<noteq> None
   \<and> job_status submitted ''1000'' = Some ''starting''
   \<and> fst (cancel_download ''1000'' submitted) = Http 200 Cancelled_ok
   \<and> (\<exists>j. map_of (download_progress (snd (cancel_download ''1000'' submitted))) ''1000'' = Some j
          \<and> status j = ''cancelled'' \<and> progress j = 0)
   \<and> map_of (download_progress submitted) ''7'' = None
   \<and> (\<exists>b. fst (cancel_download ''7'' submitted) = Http 404 b)"
  using cancel_download_outcome [of "''1000''" submitted] cancel_download_outcome [of "''7''" submitted]
  by (simp add: submitted_eq empty_registry_def job_status_def new_job_def)

section \<open>The example run\<close>

lemma finished_eq:
  "\<exists>j. download_progress finished = [(''1000'', j)] \<and> status j = ''completed''
       \<and> final_path j = ''downloads/video_1000.mp4'' \<and> title j = Absent \<and> \<not> is_audio j
       \<and> error j = None"
  "files finished = [(''downloads/video_1000.mp4'', 1003)]"
  by (simp_all add: finished_def download_thread_def ydl_call_def example_run_def
      example_event_def ProgressHook_call_def record_progress_def cancel_requested_def
      submitted_eq empty_registry_def new_job_def update_job_def assign_def write_files_def
      get_or_def py_or_def truthy_num_def downloading_update_def Let_def path_join_def
      DOWNLOAD_FOLDER_def path_exists_def)

section \<open>Retention sweeper\<close>

lemma sweep_job_other:
  "v \<noteq> k \<Longrightarrow> map_of (download_progress (sweep_job k st)) v = map_of (download_progress st) v"
  "v \<noteq> k \<Longrightarrow> download_processes (sweep_job k st) v = download_processes st v"
  "v \<noteq> k \<Longrightarrow> download_threads (sweep_job k st) v = download_threads st v"
  "v \<noteq> k \<Longrightarrow> download_cancel_flags (sweep_job k st) v = download_cancel_flags st v"
  by (simp_all add: sweep_job_def AList.delete_conv' split: option.splits)

lemma sweep_job_files [simp]: "files (sweep_job k st) = files st"
  by (simp add: sweep_job_def split: option.splits)

lemma sweep_job_swept:
  "swept st k \<Longrightarrow> map_of (download_progress (sweep_job k st)) k = None"
  "swept st k \<Longrightarrow> download_processes (sweep_job k st) k = None"
  "swept st k \<Longrightarrow> download_threads (sweep_job k st) k = None"
  "swept st k \<Longrightarrow> download_cancel_flags (sweep_job k st) k = None"
  by (auto simp: sweep_job_def swept_def AList.delete_conv')

lemma sweep_job_kept: "\<not> swept st k \<Longrightarrow> sweep_job k st = st"
  by (auto simp: sweep_job_def swept_def split: option.splits)

lemma swept_sweep_job: "swept (sweep_job k st) v \<longleftrightarrow> swept st v \<and> \<not> (v = k)"
proof (cases "v = k")
  case True
  show ?thesis
  proof (cases "swept st k")
    case True
    then show ?thesis using \<open>v = k\<close> sweep_job_swept(1)[of st k] by (simp add: swept_def)
  next
    case False
    then show ?thesis using \<open>v = k\<close> by (simp add: sweep_job_kept)
  qed
next
  case False
  then show ?thesis by (simp add: swept_def sweep_job_other)
qed

lemma fold_sweep_job_all:
  "map_of (download_progress (fold sweep_job ks st)) v =
     (if v \<in> set ks \<and> swept st v then None else map_of (download_progress st) v)
   \<and> download_processes (fold sweep_job ks st) v =
     (if v \<in> set ks \<and> swept st v then None else download_processes st v)
   \<and> download_threads (fold sweep_job ks st) v =
     (if v \<in> set ks \<and> swept st v then None else download_threads st v)
   \<and> download_cancel_flags (fold sweep_job ks st) v =
     (if v \<in> set ks \<and> swept st v then None else download_cancel_flags st v)
   \<and> files (fold sweep_job ks st) = files st"
proof (induction ks arbitrary: st)
  case Nil
  show ?case by simp
next
  case (Cons k ks)
  show ?case
  proof (cases "swept st k")
    case False
    then show ?thesis using Cons.IH[of st] by (auto simp: sweep_job_kept)
  next
    case True
    show ?thesis
    proof (cases "v = k")
      case True
      then show ?thesis using \<open>swept st k\<close> Cons.IH[of "sweep_job k st"]
        by (simp add: swept_sweep_job sweep_job_swept)
    next
      case False
      then show ?thesis using Cons.IH[of "sweep_job k st"]
        by (simp add: swept_sweep_job sweep_job_other)
    qed
  qed
qed

lemmas fold_sweep_job =
  fold_sweep_job_all[THEN conjunct1]
  fold_sweep_job_all[THEN conjunct2, THEN conjunct1]
  fold_sweep_job_all[THEN conjunct2, THEN conjunct2, THEN conjunct1]
  fold_sweep_job_all[THEN conjunct2, THEN conjunct2, THEN conjunct2, THEN conjunct1]
  fold_sweep_job_all[THEN conjunct2, THEN conjunct2, THEN conjunct2, THEN conjunct2]

lemma os_remove_files:
  "map_of (files (os_remove p st)) q = (if q = p then None else map_of (files st) q)"
  by (simp add: os_remove_def AList.delete_conv')

lemma sweep_files_result:
  assumes "distinct ps" "set ps \<subseteq> fst ` set (files st)"
  shows "\<exists>st'. sweep_files now ps st = (None, st')
           \<and> download_progress st' = download_progress st
           \<and> download_processes st' = download_processes st
           \<and> download_threads st' = download_threads st
           \<and> download_cancel_flags st' = download_cancel_flags st
           \<and> (\<forall>q. map_of (files st') q =
                 (if q \<in> set ps \<and> (\<exists>m. map_of (files st) q = Some m \<and> m < now - 3600)
                  then None else map_of (files st) q))"
  using assms
proof (induction ps arbitrary: st)
  case Nil
  then show ?case by simp
next
  case (Cons p ps)
  have "map_of (files st) p \<noteq> None" using Cons.prems(2) by (simp add: map_of_eq_None_iff)
  then obtain m where m: "map_of (files st) p = Some m" by blast
  let ?st1 = "if m < now - 3600 then os_remove p st else st"
  have sub: "set ps \<subseteq> fst ` set (files ?st1)"
  proof
    fix q assume q: "q \<in> set ps"
    then have "q \<noteq> p" using Cons.prems(1) by auto
    moreover have "map_of (files st) q \<noteq> None" using q Cons.prems(2) by (auto simp: map_of_eq_None_iff)
    ultimately have "map_of (files ?st1) q \<noteq> None" by (simp add: os_remove_files)
    then show "q \<in> fst ` set (files ?st1)" by (simp add: map_of_eq_None_iff)
  qed
  from Cons.prems(1) have d: "distinct ps" and pn: "p \<notin> set ps" by simp_all
  from Cons.IH[OF d sub] obtain st' where st': "sweep_files now ps ?st1 = (None, st')"
    and t: "download_progress st' = download_progress ?st1"
           "download_processes st' = download_processes ?st1"
           "download_threads st' = download_threads ?st1"
           "download_cancel_flags st' = download_cancel_flags ?st1"
    and f: "\<forall>q. map_of (files st') q =
                 (if q \<in> set ps \<and> (\<exists>m. map_of (files ?st1) q = Some m \<and> m < now - 3600)
                  then None else map_of (files ?st1) q)"
    by blast
  have "sweep_files now (p # ps) st = (None, st')" using m st' by simp
  moreover have "download_progress st' = download_progress st"
           "download_processes st' = download_processes st"
           "download_threads st' = download_threads st"
           "download_cancel_flags st' = download_cancel_flags st"
    using t by simp_all
  moreover have "\<forall>q. map_of (files st') q =
                 (if q \<in> set (p # ps) \<and> (\<exists>m. map_of (files st) q = Some m \<and> m < now - 3600)
                  then None else map_of (files st) q)"
    using f m pn by (auto simp: os_remove_files)
  ultimately show ?case by blast
qed

text \<open>
  Claim C7. One cycle of the sweeper, \<open>cleanup_downloads\<close>, removes every job whose status
  is \<open>completed\<close>, \<open>error\<close> or \<open>cancelled\<close> from the registry, together with its
  entries in the tables of processes, threads and cancel flags, so that a status poll for
  it answers \<open>not_found\<close>; and it removes every file of the download folder whose
  modification time is more than 3600 seconds before the time of the cycle.
\<close>

theorem cleanup_downloads_sweeps:
  "(\<forall>vid j. map_of (download_progress st) vid = Some j
        \<and> status j \<in> {''completed'', ''error'', ''cancelled''} \<longrightarrow>
        map_of (download_progress (cleanup_downloads now st)) vid = None
        \<and> download_processes (cleanup_downloads now st) vid = None
        \<and> download_threads (cleanup_downloads now st) vid = None
        \<and> download_cancel_flags (cleanup_downloads now st) vid = None
        \<and> get_progress vid (cleanup_downloads now st) = Http 200 Not_found)
   \<and> (\<forall>p m. map_of (files st) p = Some m \<and> m < now - 3600 \<longrightarrow>
          \<not> path_exists p (cleanup_downloads now st))"
proof -
  have "distinct (remdups (map fst (files st)))" "set (remdups (map fst (files st))) \<subseteq> fst ` set (files st)"
    by simp_all
  from sweep_files_result[OF this, of now] obtain st1 where
    s: "sweep_files now (remdups (map fst (files st))) st = (None, st1)"
    and t: "download_progress st1 = download_progress st"
           "download_processes st1 = download_processes st"
           "download_threads st1 = download_threads st"
           "download_cancel_flags st1 = download_cancel_flags st"
    and f: "\<forall>q. map_of (files st1) q =
                 (if q \<in> set (remdups (map fst (files st))) \<and> (\<exists>m. map_of (files st) q = Some m \<and> m < now - 3600)
                  then None else map_of (files st) q)"
    by blast
  have c: "cleanup_downloads now st = fold sweep_job (map fst (download_progress st)) st1"
    using s t by (simp add: cleanup_downloads_def)
  have sw: "swept st1 v = swept st v" for v by (simp add: swept_def t)
  have jobs: "map_of (download_progress (cleanup_downloads now st)) vid = None
        \<and> download_processes (cleanup_downloads now st) vid = None
        \<and> download_threads (cleanup_downloads now st) vid = None
        \<and> download_cancel_flags (cleanup_downloads now st) vid = None
        \<and> get_progress vid (cleanup_downloads now st) = Http 200 Not_found"
    if j: "map_of (download_progress st) vid = Some j"
      and tj: "status j \<in> {''completed'', ''error'', ''cancelled''}" for vid j
  proof -
    have "swept st vid" using j tj by (auto simp: swept_def terminal_def)
    moreover have "vid \<in> set (map fst (download_progress st))"
      using j by (metis map_of_eq_None_iff option.distinct(1) set_map)
    ultimately show ?thesis
      unfolding c get_progress_def by (simp add: fold_sweep_job sw)
  qed
  have fl: "\<not> path_exists p (cleanup_downloads now st)"
    if "map_of (files st) p = Some m" "m < now - 3600" for p m
  proof -
    have "p \<in> set (remdups (map fst (files st)))"
      using that(1) by (metis map_of_eq_None_iff option.distinct(1) set_map set_remdups)
    then have "map_of (files st1) p = None" using f that by auto
    then show ?thesis unfolding c path_exists_def by (simp add: fold_sweep_job)
  qed
  from jobs fl show ?thesis by blast
qed

theorem cleanup_downloads_sweeps_witness:
  "job_status finished ''1000'' = Some ''completed''
   \<and> map_of (files finished) ''downloads/video_1000.mp4'' = Some 1003
   \<and> (1003 :: real) < 5000 - 3600
   \<and> map_of (download_progress (cleanup_downloads 5000 finished)) ''1000'' = None
   \<and> download_threads (cleanup_downloads 5000 finished) ''1000'' = None
   \<and> get_progress ''1000'' (cleanup_downloads 5000 finished) = Http 200 Not_found
   \<and> \<not> path_exists ''downloads/video_1000.mp4'' (cleanup_downloads 5000 finished)"
proof -
  from finished_eq(1) obtain j where j: "download_progress finished = [(''1000'', j)]"
    and sj: "status j = ''completed''" by blast
  have m: "map_of (download_progress finished) ''1000'' = Some j" by (simp add: j)
  have f: "map_of (files finished) ''downloads/video_1000.mp4'' = Some 1003 \<and> (1003 :: real) < 5000 - 3600"
    by (simp add: finished_eq)
  from cleanup_downloads_sweeps [of finished 5000] m sj f
  have "map_of (download_progress (cleanup_downloads 5000 finished)) ''1000'' = None
   \<and> download_threads (cleanup_downloads 5000 finished) ''1000'' = None
   \<and> get_progress ''1000'' (cleanup_downloads 5000 finished) = Http 200 Not_found
   \<and> \<not> path_exists ''downloads/video_1000.mp4'' (cleanup_downloads 5000 finished)"
    by simp
  with m sj f show ?thesis by (simp add: job_status_def)
qed

section \<open>Artifact fetch\<close>

lemma remove_if_exists_tables [simp]:
  "download_progress (remove_if_exists p st) = download_progress st"
  "download_processes (remove_if_exists p st) = download_processes st"
  "download_threads (remove_if_exists p st) = download_threads st"
  "download_cancel_flags (remove_if_exists p st) = download_cancel_flags st"
  by (simp_all add: remove_if_exists_def)

lemma remove_if_exists_files:
  "map_of (files (remove_if_exists p st)) q = (if q = p then None else map_of (files st) q)"
  by (auto simp: remove_if_exists_def path_exists_def os_remove_files)

lemma fold_remove_tables [simp]:
  "download_progress (fold (\<lambda>e s. remove_if_exists (g e) s) es st) = download_progress st"
  by (induction es arbitrary: st) simp_all

lemma fold_remove_files:
  "map_of (files (fold (\<lambda>e s. remove_if_exists (g e) s) es st)) q =
     (if q \<in> g ` set es then None else map_of (files st) q)"
  by (induction es arbitrary: st) (auto simp: remove_if_exists_files)

lemma on_close_tables [simp]: "download_progress (on_close vid path st) = download_progress st"
  by (simp add: on_close_def)

lemma on_close_files:
  "map_of (files (on_close vid path st)) q =
     (if q = path \<or> q \<in> (\<lambda>e. path_join DOWNLOAD_FOLDER vid @ e)
                          ` set [''.mp3'', ''.webm'', ''.m4a'', ''_temp'', ''_temp.mp3'', ''.mp4'']
      then None else map_of (files st) q)"
  unfolding on_close_def by (simp only: fold_remove_files remove_if_exists_files) auto

lemma get_video_served:
  assumes "get_video vid st = Http c (File_body path m n)"
  shows "\<exists>j. map_of (download_progress st) vid = Some j \<and> status j = ''completed''
            \<and> final_path j = path \<and> path_exists path st \<and> c = 200"
  using assms by (auto simp: get_video_def split: option.splits if_splits)

lemma get_video_gone:
  assumes "map_of (download_progress st) vid = Some j" "status j = ''completed''"
    "\<not> path_exists (final_path j) st"
  shows "get_video vid st = Http 404 (Error_msg ''Archivo no encontrado'')"
  using assms by (simp add: get_video_def)

lemma fetch_artifact_unchanged: "snd (fetch_artifact vid st) = st"
  by (simp add: fetch_artifact_def)

lemma fetch_artifact_again:
  "fst (fetch_artifact vid (snd (fetch_artifact vid st))) = fst (fetch_artifact vid st)"
  by (simp add: fetch_artifact_def)

lemma fetch_not_ready:
  "map_of (download_progress st) vid = Some j \<Longrightarrow> status j \<noteq> ''completed'' \<Longrightarrow>
   fetch_artifact vid st = (Http 400 (Error_msg not_yet_completed), st)"
  by (simp add: fetch_artifact_def get_video_def)

text \<open>
  Claim C6 on the code. The job \<open>1000\<close> is completed and its file is on disk. The fetch
  serves the file; the callback \<open>on_close\<close>, which would remove it, is registered but
  never run, so the file is still there after the stream has ended and the next fetch
  serves it again instead of answering 404.
\<close>

theorem fetch_leaves_artifact:
  "job_status finished ''1000'' = Some ''completed''
   \<and> fst (fetch_artifact ''1000'' finished)
       = Http 200 (File_body ''downloads/video_1000.mp4'' ''video/mp4''
                     ''Angel Downloader | download.mp4'')
   \<and> path_exists ''downloads/video_1000.mp4'' (snd (fetch_artifact ''1000'' finished))
   \<and> fst (fetch_artifact ''1000'' (snd (fetch_artifact ''1000'' finished)))
       = Http 200 (File_body ''downloads/video_1000.mp4'' ''video/mp4''
                     ''Angel Downloader | download.mp4'')
   \<and> \<not> path_exists ''downloads/video_1000.mp4''
         (on_close ''1000'' ''downloads/video_1000.mp4'' finished)"
proof -
  from finished_eq(1) obtain j where j: "download_progress finished = [(''1000'', j)]"
    and sj: "status j = ''completed''" "final_path j = ''downloads/video_1000.mp4''"
      "title j = Absent" "\<not> is_audio j" by blast
  have a: "job_status finished ''1000'' = Some ''completed''"
    by (simp add: job_status_def j sj)
  have b: "fst (fetch_artifact ''1000'' finished)
       = Http 200 (File_body ''downloads/video_1000.mp4'' ''video/mp4''
                     ''Angel Downloader | download.mp4'')"
    by (simp add: fetch_artifact_def get_video_def j sj finished_eq(2) path_exists_def
        get_or_def safe_title_def py_isalnum_def)
  have c: "path_exists ''downloads/video_1000.mp4'' (snd (fetch_artifact ''1000'' finished))"
    by (simp add: fetch_artifact_def path_exists_def finished_eq(2))
  have d: "\<not> path_exists ''downloads/video_1000.mp4''
         (on_close ''1000'' ''downloads/video_1000.mp4'' finished)"
    by (simp add: path_exists_def on_close_files)
  from a b c d show ?thesis by (simp add: fetch_artifact_def)
qed

section \<open>Job identifiers\<close>

lemma below_ten: "n < 10 \<Longrightarrow> n \<in> {0, 1, 2, 3, 4, 5, 6, 7, 8, 9 :: nat}"
  by auto

lemma digit_char_inj: "a < 10 \<Longrightarrow> b < 10 \<Longrightarrow> digit_char a = digit_char b \<Longrightarrow> a = b"
  using below_ten[of a] below_ten[of b] by (auto simp: digit_char_def)

lemma digit_char_not_minus: "digit_char d \<noteq> CHR ''-''"
proof -
  have "d mod 10 < 10" by simp
  from below_ten[OF this] show ?thesis by (auto simp: digit_char_def)
qed

lemma str_nat_nonempty: "str_nat n \<noteq> []"
  by (subst str_nat.simps) simp

lemma str_nat_small: "n < 10 \<Longrightarrow> str_nat n = [digit_char n]"
  by (subst str_nat.simps) simp

lemma str_nat_big: "\<not> n < 10 \<Longrightarrow> str_nat n = str_nat (n div 10) @ [digit_char (n mod 10)]"
  by (subst str_nat.simps) simp

lemma str_nat_hd: "hd (str_nat n) \<noteq> CHR ''-''"
proof (induction n rule: str_nat.induct)
  case (1 n)
  show ?case
  proof (cases "n < 10")
    case True
    then show ?thesis by (simp add: str_nat_small digit_char_not_minus)
  next
    case False
    then show ?thesis using 1 by (simp add: str_nat_big str_nat_nonempty)
  qed
qed

lemma str_nat_inj: "str_nat n = str_nat m \<Longrightarrow> n = m"
proof (induction n arbitrary: m rule: str_nat.induct)
  case (1 n)
  show ?case
  proof (cases "n < 10")
    case True
    have ms: "m < 10"
    proof (rule ccontr)
      assume "\<not> m < 10"
      then have "str_nat m = str_nat (m div 10) @ [digit_char (m mod 10)]" by (rule str_nat_big)
      moreover have "str_nat m = [digit_char n]" using "1.prems" True by (simp add: str_nat_small)
      ultimately have "[digit_char n] = str_nat (m div 10) @ [digit_char (m mod 10)]" by simp
      then have "str_nat (m div 10) = []" by (simp add: Cons_eq_append_conv)
      then show False by (simp add: str_nat_nonempty)
    qed
    with "1.prems" True show ?thesis by (simp add: str_nat_small digit_char_inj)
  next
    case False
    have mb: "\<not> m < 10"
    proof
      assume "m < 10"
      then have "str_nat m = [digit_char m]" by (rule str_nat_small)
      moreover have "str_nat m = str_nat (n div 10) @ [digit_char (n mod 10)]"
        using "1.prems" False by (simp add: str_nat_big)
      ultimately have "[digit_char m] = str_nat (n div 10) @ [digit_char (n mod 10)]" by simp
      then have "str_nat (n div 10) = []" by (simp add: Cons_eq_append_conv)
      then show False by (simp add: str_nat_nonempty)
    qed
    from "1.prems" False mb
    have e: "str_nat (n div 10) = str_nat (m div 10)" "digit_char (n mod 10) = digit_char (m mod 10)"
      by (simp_all add: str_nat_big)
    from "1.IH"[OF False e(1)] have d: "n div 10 = m div 10" .
    from e(2) have r: "n mod 10 = m mod 10" by (intro digit_char_inj) simp_all
    from d r show ?thesis by (metis div_mult_mod_eq)
  qed
qed

lemma str_int_inj: "str_int i = str_int j \<Longrightarrow> i = j"
proof -
  assume e: "str_int i = str_int j"
  have neg: "hd (str_int k) = CHR ''-'' \<longleftrightarrow> k < 0" for k
    using str_nat_hd[of "nat k"] by (simp add: str_int_def)
  from e have s: "i < 0 \<longleftrightarrow> j < 0" using neg[of i] neg[of j] by simp
  show ?thesis
  proof (cases "i < 0")
    case True
    with s e have "str_nat (nat (- i)) = str_nat (nat (- j))" by (simp add: str_int_def)
    then have "nat (- i) = nat (- j)" by (rule str_nat_inj)
    with True s show ?thesis by simp
  next
    case False
    with s e have "str_nat (nat i) = str_nat (nat j)" by (simp add: str_int_def)
    then have "nat i = nat j" by (rule str_nat_inj)
    with False s show ?thesis by simp
  qed
qed

lemma download_started:
  assumes "fst (download data now extracted thread st) = Http 200 (Started v)"
  shows "v = video_id_at now"
  using assms
  by (auto simp: download_def Let_def split: option.splits sum.splits field.splits if_splits)

lemma download_stores_new_job:
  assumes "fst (download data now extracted thread st) = Http 200 (Started v)"
  shows "\<exists>a ti p. map_of (download_progress (snd (download data now extracted thread st))) v
                    = Some (new_job a ti p)"
proof -
  have v: "v = video_id_at now" by (rule download_started[OF assms])
  show ?thesis using assms unfolding v
    by (auto simp: download_def Let_def register_job_def AList.update_conv'
        split: option.splits sum.splits field.splits if_splits)
qed

text \<open>
  Claim C8, as the code has it. The identifier of a job is the time of its submission cut
  to whole seconds: two submissions whose times differ in their whole seconds get
  different identifiers, whatever else they submit, and two submissions within the same
  whole second get the same identifier. A submission stores a new job state under its
  identifier, so the later of two such submissions replaces the state of the earlier.
\<close>

theorem job_ids_distinct_across_seconds:
  "(py_int t1 \<noteq> py_int t2 \<longrightarrow> video_id_at t1 \<noteq> video_id_at t2)
   \<and> (fst (download d1 t1 x1 k1 st1) = Http 200 (Started v1)
        \<and> fst (download d2 t2 x2 k2 st2) = Http 200 (Started v2)
        \<and> py_int t1 \<noteq> py_int t2 \<longrightarrow> v1 \<noteq> v2)
   \<and> (py_int t1 = py_int t2 \<longrightarrow> video_id_at t1 = video_id_at t2)
   \<and> (fst (download d1 t1 x1 k1 st1) = Http 200 (Started v1)
        \<longrightarrow> (\<exists>a ti p. map_of (download_progress (snd (download d1 t1 x1 k1 st1))) v1
                         = Some (new_job a ti p)))"
proof -
  have a: "py_int t1 \<noteq> py_int t2 \<longrightarrow> video_id_at t1 \<noteq> video_id_at t2"
    using str_int_inj[of "py_int t1" "py_int t2"] by (auto simp: video_id_at_def)
  have b: "fst (download d1 t1 x1 k1 st1) = Http 200 (Started v1)
        \<and> fst (download d2 t2 x2 k2 st2) = Http 200 (Started v2)
        \<and> py_int t1 \<noteq> py_int t2 \<longrightarrow> v1 \<noteq> v2"
    using a download_started[of d1 t1 x1 k1 st1 v1] download_started[of d2 t2 x2 k2 st2 v2]
    by blast
  have c: "py_int t1 = py_int t2 \<longrightarrow> video_id_at t1 = video_id_at t2"
    by (simp add: video_id_at_def)
  have d: "fst (download d1 t1 x1 k1 st1) = Http 200 (Started v1)
        \<longrightarrow> (\<exists>a ti p. map_of (download_progress (snd (download d1 t1 x1 k1 st1))) v1
                         = Some (new_job a ti p))"
    using download_stores_new_job[of d1 t1 x1 k1 st1 v1] by blast
  from a b c d show ?thesis by blast
qed


lemma str_nat_2002: "str_nat 2002 = ''2002''"
  by (simp add: str_nat.simps digit_char_def)

lemma submitted_audio_eq:
  "submitted_audio = empty_registry
     \<lparr>download_progress := [(''1000'', new_job True (Val ''Song'') ''downloads/1000_final.mp3'')],
      download_threads := [''1000'' \<mapsto> 1]\<rparr>"
  by (simp add: submitted_audio_def download_def example_submission_def example_info_def
      example_formats_def example_format_def get_def get_or_def register_job_def video_id_example
      empty_registry_def path_join_def DOWNLOAD_FOLDER_def Let_def)

theorem job_ids_distinct_across_seconds_witness:
  "py_int (2001 / 2) \<noteq> py_int (4005 / 2)
   \<and> video_id_at (2001 / 2) = ''1000'' \<and> video_id_at (4005 / 2) = ''2002''
   \<and> video_id_at (2001 / 2) \<noteq> video_id_at (4005 / 2)
   \<and> py_int (2001 / 2) = py_int (4003 / 4)
   \<and> video_id_at (2001 / 2) = video_id_at (4003 / 4)
   \<and> fst (download (example_submission ''18'') (4003 / 4) (Inr example_info) 2 submitted_audio)
       = Http 200 (Started ''1000'')
   \<and> (\<exists>a ti p. map_of (download_progress
                        (snd (download (example_submission ''18'') (4003 / 4) (Inr example_info) 2
                                submitted_audio))) ''1000''
                  = Some (new_job a ti p))"
proof -
  have d: "py_int (2001 / 2) \<noteq> py_int (4005 / 2)" by (simp add: py_int_def)
  have e: "py_int (2001 / 2) = py_int (4003 / 4)" by (simp add: py_int_def)
  have ids: "video_id_at (2001 / 2) = ''1000''" "video_id_at (4005 / 2) = ''2002''"
    by (simp_all add: video_id_at_def py_int_def str_int_def str_nat_1000 str_nat_2002)
  from job_ids_distinct_across_seconds [of "2001 / 2" "4005 / 2"] d
  have ne: "video_id_at (2001 / 2) \<noteq> video_id_at (4005 / 2)" by blast
  from job_ids_distinct_across_seconds [of "2001 / 2" "4003 / 4"] e
  have eq: "video_id_at (2001 / 2) = video_id_at (4003 / 4)" by blast
  have st: "fst (download (example_submission ''18'') (4003 / 4) (Inr example_info) 2
                  submitted_audio) = Http 200 (Started ''1000'')"
    by (simp add: submitted_audio_eq download_def example_submission_def example_info_def
        example_formats_def example_format_def get_def get_or_def video_id_example Let_def)
  from job_ids_distinct_across_seconds
         [of "4003 / 4" "2001 / 2" "example_submission ''18''" "Inr example_info" 2
             submitted_audio "''1000''"] st
  have nj: "\<exists>a ti p. map_of (download_progress
                        (snd (download (example_submission ''18'') (4003 / 4) (Inr example_info) 2
                                submitted_audio))) ''1000''
                  = Some (new_job a ti p)" by blast
  from d e ids ne eq st nj show ?thesis by blast
qed

text \<open>
  Claim C8 as stated fails: the two submissions at 1000.5 and 1000.75 are both answered
  with the identifier \<open>1000\<close>, and the state of the first job, an audio job with its
  title, is replaced by the state of the second.
\<close>

theorem job_ids_collide_within_second:
  "(2001 / 2 :: real) \<noteq> 4003 / 4
   \<and> fst (download (example_submission ''140'') (2001 / 2) (Inr example_info) 1 empty_registry)
       = Http 200 (Started ''1000'')
   \<and> map_of (download_progress submitted_audio) ''1000''
       = Some (new_job True (Val ''Song'') ''downloads/1000_final.mp3'')
   \<and> fst (download (example_submission ''18'') (4003 / 4) (Inr example_info) 2 submitted_audio)
       = Http 200 (Started ''1000'')
   \<and> download_progress submitted_twice
       = [(''1000'', new_job False Absent ''downloads/video_1000.mp4'')]"
  by (simp add: submitted_twice_def submitted_audio_eq download_def example_submission_def
      example_info_def example_formats_def example_format_def get_def get_or_def
      register_job_def video_id_example empty_registry_def path_join_def DOWNLOAD_FOLDER_def
      Let_def)

section \<open>Progress tracker\<close>

lemma cancel_msg_unmarked: "\<not> in_str ''cancelled'' cancel_msg"
  by (simp add: cancel_msg_def)

subsection \<open>Rounding to a double\<close>

lemma bitlen_between:
  assumes "2 ^ n \<le> m" "m < 2 * 2 ^ n"
  shows "bitlen m = int n + 1"
proof -
  have "bitlen m \<le> int (Suc n)"
    using assms(2) bitlen_le_iff_power[of m "int (Suc n)"] by (simp del: of_nat_Suc)
  moreover have "int (Suc n) \<le> bitlen m"
    using assms(1) bitlen_ge_iff_power[of "int (Suc n)" m] by (simp del: of_nat_Suc)
  ultimately show ?thesis by simp
qed

lemma binade_nat:
  assumes "2 ^ n \<le> x" "x < 2 * 2 ^ n"
  shows "binade x = int n"
proof -
  have one: "1 \<le> x" using assms(1) one_le_power[of "2::real" n] by linarith
  have "(2::real) ^ n = of_int (2 ^ n)" by simp
  then have "of_int (2 ^ n) \<le> x" using assms(1) by simp
  then have a: "2 ^ n \<le> \<lfloor>x\<rfloor>" by (simp only: le_floor_iff)
  have "x < of_int (2 * 2 ^ n)" using assms(2) by simp
  then have b: "\<lfloor>x\<rfloor> < 2 * 2 ^ n" by (simp only: floor_less_iff)
  show ?thesis using one bitlen_between[OF a b] by (simp add: binade_def)
qed

lemma binade_neg:
  assumes "1 / 2 ^ Suc n \<le> x" "x < 2 / 2 ^ Suc n"
  shows "binade x = - int (Suc n)"
proof -
  have p: "(0::real) < 2 ^ n" by simp
  have pos: "0 < x" using assms(1) by (smt (verit) divide_pos_pos zero_less_power)
  have "x * 1 \<le> x * 2 ^ n" by (rule mult_left_mono) (use pos in auto)
  moreover have "x * 2 ^ n < 1" using assms(2) by (simp add: field_simps)
  ultimately have lt: "x < 1" by simp
  have "1 / x \<le> 2 ^ Suc n" using assms(1) pos by (simp add: field_simps)
  then have "1 / x \<le> of_int (2 * 2 ^ n)" by simp
  then have c1: "\<lceil>1 / x\<rceil> \<le> 2 * 2 ^ n" by (simp only: ceiling_le_iff)
  have "2 ^ n < 1 / x" using assms(2) pos by (simp add: field_simps)
  then have "of_int (2 ^ n) < 1 / x" by simp
  then have c2: "2 ^ n < \<lceil>1 / x\<rceil>" by (simp only: less_ceiling_iff)
  have "bitlen (\<lceil>1 / x\<rceil> - 1) = int n + 1"
    by (rule bitlen_between) (use c1 c2 in auto)
  then show ?thesis using lt by (simp add: binade_def)
qed

lemma binade_at:
  assumes "2 powr of_int k \<le> x" "x < 2 powr (of_int k + 1)"
  shows "binade x = k"
proof (cases "0 \<le> k")
  case True
  then obtain n where k: "k = int n" using nonneg_int_cases by blast
  have "2 ^ n \<le> x" using assms(1) by (simp add: k powr_realpow)
  moreover have "x < 2 * 2 ^ n" using assms(2) by (simp add: k powr_add powr_realpow)
  ultimately show ?thesis using binade_nat k by simp
next
  case False
  then obtain n where k: "k = - int (Suc n)" using negD by (metis not_le)
  have "(2::real) powr of_int k = 2 powr (- real (Suc n))" unfolding k by simp
  also have "\<dots> = inverse (2 powr real (Suc n))" by (rule powr_minus)
  also have "\<dots> = 1 / 2 ^ Suc n" by (simp only: powr_realpow zero_less_numeral divide_inverse mult_1)
  finally have e: "(2::real) powr of_int k = 1 / 2 ^ Suc n" .
  have "1 / 2 ^ Suc n \<le> x" using assms(1) unfolding e .
  moreover have "x < 2 / 2 ^ Suc n" using assms(2) unfolding powr_add e by simp
  ultimately show ?thesis using binade_neg k by simp
qed

lemma two_powi: "(2::real) powi k = 2 powr of_int k"
  by (simp add: powr_real_of_int')

lemma fl_at:
  assumes "2 powr of_int k \<le> \<bar>x\<bar>" "\<bar>x\<bar> < 2 powr (of_int k + 1)" "- 1022 \<le> k"
  shows "fl x = of_int (rhe (x / 2 powr (of_int k - 52))) * 2 powr (of_int k - 52)"
proof -
  have "(0::real) < 2 powr of_int k" by simp
  then have "x \<noteq> 0" using assms(1) by auto
  moreover have "binade \<bar>x\<bar> = k" by (rule binade_at[OF assms(1,2)])
  ultimately show ?thesis using assms(3) by (simp add: fl_def Let_def max_def two_powi)
qed

lemma two_powr_nat: "(2::real) powr of_int (int n) = 2 ^ n"
  by (simp add: powr_realpow)

lemma two_powr_neg: "(2::real) powr of_int (- int n) = 1 / 2 ^ n"
  by (simp add: powr_minus powr_realpow divide_inverse)

lemma two_powr_52: "(2::real) powr 52 = 2 ^ 52"
  using powr_realpow[of 2 52] by simp

text \<open>The double nearest to a real between \<open>2 ^ n\<close> and \<open>2 ^ (n + 1)\<close>.\<close>

lemma fl_large:
  assumes "2 ^ n \<le> \<bar>x\<bar>" "\<bar>x\<bar> < 2 * 2 ^ n"
  shows "fl x = of_int (rhe (x * 2 ^ 52 / 2 ^ n)) * 2 ^ n / 2 ^ 52"
proof -
  have u: "(2::real) powr (of_int (int n) - 52) = 2 ^ n / 2 ^ 52"
    by (simp only: powr_diff two_powr_nat two_powr_52)
  have a: "2 powr of_int (int n) \<le> \<bar>x\<bar>" using assms(1) by (simp only: two_powr_nat)
  have b: "\<bar>x\<bar> < 2 powr (of_int (int n) + 1)"
    using assms(2) by (simp add: powr_add two_powr_nat del: of_int_of_nat_eq)
  have "fl x = of_int (rhe (x / 2 powr (of_int (int n) - 52))) * 2 powr (of_int (int n) - 52)"
    by (rule fl_at[OF a b]) simp
  then show ?thesis unfolding u by simp
qed

text \<open>The double nearest to a real between \<open>1 / 2 ^ n\<close> and \<open>2 / 2 ^ n\<close>.\<close>

lemma fl_small:
  assumes "1 / 2 ^ n \<le> \<bar>x\<bar>" "\<bar>x\<bar> < 2 / 2 ^ n" "n \<le> 1022"
  shows "fl x = of_int (rhe (x * (2 ^ n * 2 ^ 52))) / (2 ^ n * 2 ^ 52)"
proof -
  have u: "(2::real) powr (of_int (- int n) - 52) = 1 / (2 ^ n * 2 ^ 52)"
    by (simp only: powr_diff two_powr_neg two_powr_52) simp
  have a: "2 powr of_int (- int n) \<le> \<bar>x\<bar>" using assms(1) by (simp only: two_powr_neg)
  have b: "\<bar>x\<bar> < 2 powr (of_int (- int n) + 1)"
    using assms(2) by (simp only: powr_add two_powr_neg) simp
  have "fl x = of_int (rhe (x / 2 powr (of_int (- int n) - 52))) * 2 powr (of_int (- int n) - 52)"
    by (rule fl_at[OF a b]) (use assms(3) in simp)
  then show ?thesis unfolding u by simp
qed

lemma fl_zero [simp]: "fl 0 = 0"
  by (simp add: fl_def)

text \<open>The constants 0.45 and 0.1 of the program, as doubles.\<close>

lemma fl_045: "fl 0.45 = 8106479329266893 / 2 ^ 54"
  by (subst fl_small[of 2]) (simp_all add: rhe_def Let_def)

lemma fl_01: "fl 0.1 = 3602879701896397 / 2 ^ 55"
  by (subst fl_small[of 4]) (simp_all add: rhe_def Let_def)

text \<open>50 of 100 bytes in the video stage: the progress 22.5.\<close>

lemma weighted_half_video:
  "py_round2 (fl (0 + fl (fl (fl (50 / 100) * 100) * fl 0.45))) = 22.5"
proof -
  have a: "fl (50 / 100) = 1 / 2"
    by (subst fl_small[of 1]) (simp_all add: rhe_def Let_def)
  have b: "fl (1 / 2 * 100) = 50"
    by (subst fl_large[of 5]) (simp_all add: rhe_def Let_def)
  have c: "fl (50 * (8106479329266893 / 2 ^ 54)) = 45 / 2"
    by (subst fl_large[of 4]) (simp_all add: rhe_def Let_def)
  have d: "fl (0 + 45 / 2) = 45 / 2"
    by (subst fl_large[of 4]) (simp_all add: rhe_def Let_def)
  have e: "py_round2 (45 / 2) = 45 / 2"
    unfolding py_round2_def by (subst fl_large[of 4]) (simp_all add: rhe_def Let_def)
  show ?thesis by (simp only: a b fl_045 c d e)
qed

text \<open>100 of 100 bytes in the merging stage: the progress 100.\<close>

lemma weighted_full_merging:
  "py_round2 (fl (90 + fl (fl (fl (100 / 100) * 100) * fl 0.1))) = 100"
proof -
  have a: "fl (100 / 100) = 1"
    by (subst fl_large[of 0]) (simp_all add: rhe_def Let_def)
  have b: "fl (1 * 100) = 100"
    by (subst fl_large[of 6]) (simp_all add: rhe_def Let_def)
  have c: "fl (100 * (3602879701896397 / 2 ^ 55)) = 10"
    by (subst fl_large[of 3]) (simp_all add: rhe_def Let_def)
  have d: "fl (90 + 10) = 100"
    by (subst fl_large[of 6]) (simp_all add: rhe_def Let_def)
  have e: "py_round2 100 = 100"
    unfolding py_round2_def by (subst fl_large[of 6]) (simp_all add: rhe_def Let_def)
  show ?thesis by (simp only: a b fl_01 c d e)
qed

text \<open>
  1 of 200 bytes in the video stage: the product with the double 0.45 lies just above
  0.225, so the progress is the double 0.23, where exact arithmetic would give a tie and
  0.22.
\<close>

lemma weighted_one_of_200:
  "py_round2 (fl (0 + fl (fl (fl (1 / 200) * 100) * fl 0.45))) = fl (23 / 100)"
proof -
  have a: "fl (1 / 200) = 5764607523034235 / 2 ^ 60"
    by (subst fl_small[of 8]) (simp_all add: rhe_def Let_def)
  have b: "fl (5764607523034235 / 2 ^ 60 * 100) = 1 / 2"
    by (subst fl_small[of 1]) (simp_all add: rhe_def Let_def)
  have c: "fl (1 / 2 * (8106479329266893 / 2 ^ 54)) = 8106479329266893 / 2 ^ 55"
    by (subst fl_small[of 3]) (simp_all add: rhe_def Let_def)
  have d: "fl (0 + 8106479329266893 / 2 ^ 55) = 8106479329266893 / 2 ^ 55"
    by (subst fl_small[of 3]) (simp_all add: rhe_def Let_def)
  have e: "py_round2 (8106479329266893 / 2 ^ 55) = fl (23 / 100)"
    unfolding py_round2_def by (simp add: rhe_def Let_def)
  show ?thesis by (simp only: a b fl_045 c d e)
qed

subsection \<open>The hook on a \<open>downloading\<close> event\<close>

text \<open>
  What the hook records for an event with known byte counts and a speed that is absent or
  a number, when the job is in the registry, its cancel flag is not set and no other
  thread writes in between.
\<close>

lemma hook_records_progress:
  assumes reg: "map_of (download_progress st) (video_id h) = Some j"
    and flag: "\<not> cancel_requested st (video_id h)"
    and dl: "ev_status d = ''downloading''"
    and tot: "py_or (get_or (total_bytes d) 0) (get_or (total_bytes_estimate d) 0) = Some t" "t \<noteq> 0"
    and dn: "get_or (downloaded_bytes d) 0 = Some n" "n \<noteq> 0"
    and sp: "get_or (ev_speed d) 0 = Some s"
  shows "ProgressHook_call h d now [] st =
           (None, st\<lparr>download_progress :=
                       AList.update (video_id h) (downloading_update h t n s now j)
                         (download_progress st)\<rparr>)"
proof -
  have r: "record_progress h d now [] st =
             (None, st\<lparr>download_progress :=
                         AList.update (video_id h) (downloading_update h t n s now j)
                           (download_progress st)\<rparr>)"
    using reg flag tot dn sp
    by (simp add: record_progress_def update_job_def Let_def cancel_requested_def)
  show ?thesis using flag dl r by (simp add: ProgressHook_call_def)
qed

lemma downloading_update_progress:
  "progress (downloading_update h t n s now j) =
     py_round2 (fl ((if stage h = ''video'' then 0 else if stage h = ''audio'' then 45 else 90)
                    + fl (fl (fl (n / t) * 100)
                          * fl (if stage h \<noteq> ''merging'' then 0.45 else 0.1))))"
  by (simp add: downloading_update_def Let_def)

lemma cancelled_eq:
  "download_progress (snd (cancel_download ''1000'' submitted)) =
     [(''1000'', (new_job False Absent ''downloads/video_1000.mp4'')
                  \<lparr>status := ''cancelled'', progress := 0, error := Some cancel_msg\<rparr>)]"
  "download_cancel_flags (snd (cancel_download ''1000'' submitted)) ''1000'' = Some True"
proof -
  have j: "map_of (download_progress submitted) ''1000''
     = Some (new_job False Absent ''downloads/video_1000.mp4'')" by (simp add: submitted_eq)
  show "download_progress (snd (cancel_download ''1000'' submitted)) =
     [(''1000'', (new_job False Absent ''downloads/video_1000.mp4'')
                  \<lparr>status := ''cancelled'', progress := 0, error := Some cancel_msg\<rparr>)]"
    by (simp add: cancel_download_present(2)[OF j]) (simp add: submitted_eq)
  show "download_cancel_flags (snd (cancel_download ''1000'' submitted)) ''1000'' = Some True"
    by (simp add: cancel_download_present(3)[OF j])
qed

text \<open>
  Claim C4 on the code. The job \<open>1000\<close> is in the registry and not cancelled, and an event
  reports 50 of 100 bytes in the video stage. With the speed 10 the hook records the
  progress 22.5, as the claim says. With the speed bound to \<open>None\<close> the comparison
  \<open>speed > 0\<close> raises inside the \<open>try\<close>, the handler swallows the exception, and the hook
  returns with nothing recorded: the progress is still 0.
\<close>

theorem progress_lost_without_speed:
  "job_status submitted ''1000'' = Some ''starting''
   \<and> \<not> cancel_requested submitted ''1000''
   \<and> map_option progress (map_of (download_progress submitted) ''1000'') = Some 0
   \<and> map_option progress
        (map_of (download_progress (snd (ProgressHook_call (example_hook ''video'')
                   (example_event ''downloading'' (Val 100) (Val 50) (Val 10)) 1002 [] submitted)))
           ''1000'') = Some 22.5
   \<and> ProgressHook_call (example_hook ''video'')
        (example_event ''downloading'' (Val 100) (Val 50) Null) 1002 [] submitted
       = (None, submitted)"
proof -
  have a: "job_status submitted ''1000'' = Some ''starting''"
    "\<not> cancel_requested submitted ''1000''"
    "map_option progress (map_of (download_progress submitted) ''1000'') = Some 0"
    by (simp_all add: submitted_eq job_status_def new_job_def cancel_requested_def empty_registry_def)
  have reg: "map_of (download_progress submitted) (video_id (example_hook ''video''))
               = Some (new_job False Absent ''downloads/video_1000.mp4'')"
    by (simp add: submitted_eq example_hook_def)
  have flag: "\<not> cancel_requested submitted (video_id (example_hook ''video''))"
    using a(2) by (simp add: example_hook_def)
  have ev: "ev_status (example_event ''downloading'' (Val 100) (Val 50) (Val 10)) = ''downloading''"
    "py_or (get_or (total_bytes (example_event ''downloading'' (Val 100) (Val 50) (Val 10))) 0)
       (get_or (total_bytes_estimate (example_event ''downloading'' (Val 100) (Val 50) (Val 10))) 0)
       = Some 100"
    "get_or (downloaded_bytes (example_event ''downloading'' (Val 100) (Val 50) (Val 10))) 0 = Some 50"
    "get_or (ev_speed (example_event ''downloading'' (Val 100) (Val 50) (Val 10))) 0 = Some 10"
    by (simp_all add: example_event_def get_or_def py_or_def truthy_num_def)
  have p: "progress (downloading_update (example_hook ''video'') 100 50 10 1002 j) = 22.5" for j
    unfolding downloading_update_progress
    using weighted_half_video by (simp add: example_hook_def)
  have b: "map_option progress
        (map_of (download_progress (snd (ProgressHook_call (example_hook ''video'')
                   (example_event ''downloading'' (Val 100) (Val 50) (Val 10)) 1002 [] submitted)))
           ''1000'') = Some 22.5"
    unfolding hook_records_progress[OF reg flag ev(1) ev(2) _ ev(3) _ ev(4), simplified]
    using p by (simp add: AList.update_conv' example_hook_def)
  have c: "ProgressHook_call (example_hook ''video'')
        (example_event ''downloading'' (Val 100) (Val 50) Null) 1002 [] submitted
       = (None, submitted)"
    using a(2)
    by (simp add: ProgressHook_call_def record_progress_def example_hook_def example_event_def
        get_or_def py_or_def truthy_num_def none_vs_int_def)
  from a b c show ?thesis by blast
qed

text \<open>
  Claim C3 on the code. The job \<open>1000\<close> is cancelled by another thread between the update
  of the progress and the second look at the flag. The second look finds the flag set and
  raises, but the message of the exception does not contain the marker \<open>cancelled\<close> that
  the handler looks for: the handler swallows it and the hook returns normally.
\<close>

theorem recheck_cancellation_swallowed:
  "\<not> cancel_requested submitted ''1000''
   \<and> fst (record_progress (example_hook ''video'')
            (example_event ''downloading'' (Val 100) (Val 50) (Val 10)) 1002
            [CancelReq ''1000''] submitted) = Some (Exception cancel_msg)
   \<and> fst (ProgressHook_call (example_hook ''video'')
            (example_event ''downloading'' (Val 100) (Val 50) (Val 10)) 1002
            [CancelReq ''1000''] submitted) = None
   \<and> cancel_requested
        (snd (ProgressHook_call (example_hook ''video'')
               (example_event ''downloading'' (Val 100) (Val 50) (Val 10)) 1002
               [CancelReq ''1000''] submitted)) ''1000''
   \<and> \<not> in_str ''cancelled'' (str_exn (Exception cancel_msg))"
proof -
  let ?h = "example_hook ''video''"
  let ?d = "example_event ''downloading'' (Val 100) (Val 50) (Val 10)"
  have f: "\<not> cancel_requested submitted ''1000''"
    by (simp add: submitted_eq cancel_requested_def empty_registry_def)
  obtain j1 st1 where u: "update_job ''1000''
       (downloading_update ?h 100 50 10 1002) submitted = Inr st1"
    and j1: "map_of (download_progress st1) ''1000'' = Some j1"
    by (simp add: update_job_def submitted_eq example_hook_def)
  have c: "cancel_requested (snd (cancel_download ''1000'' st1)) ''1000''"
    by (simp add: cancel_requested_def cancel_download_present(3)[OF j1])
  have r: "record_progress ?h ?d 1002 [CancelReq ''1000''] submitted
             = (Some (Exception cancel_msg), snd (cancel_download ''1000'' st1))"
    using u c
    by (simp add: record_progress_def example_event_def get_or_def py_or_def
        truthy_num_def Let_def) (simp add: example_hook_def)
  have p: "ProgressHook_call ?h ?d 1002 [CancelReq ''1000''] submitted
             = (None, snd (cancel_download ''1000'' st1))"
    using f r cancel_msg_unmarked
    by (simp add: ProgressHook_call_def example_hook_def example_event_def)
  from f r p c cancel_msg_unmarked show ?thesis by simp
qed

section \<open>Cancellation during a run\<close>

lemmas run_defs =
  download_and_merge_def merge_body_def download_stage_def ydl_call_def stage_handler_def
  merge_stage_def outer_handler_def remove_temp_def remove_if_exists_def drop_process_def
  write_files_def assign_def update_job_def job_status_def path_exists_def os_remove_def
  ProgressHook_call_def record_progress_def cancel_requested_def
  cancel_download_def cancel_mark_def cancel_finish_def cancel_kill_def cancel_files_def
  cancel_patterns_def glob_star_def set_cancel_flag_def
  example_merge_def example_stage_def example_event_def
  get_or_def py_or_def truthy_num_def downloading_update_def Let_def path_join_def DOWNLOAD_FOLDER_def
  cancel_msg_def splitext_root_def new_job_def empty_registry_def download_thread_def
  shutil_move_def

lemma hook_raises_when_flagged:
  "cancel_requested st (video_id h) \<Longrightarrow>
   ProgressHook_call h d now rs st = (Some (Exception cancel_msg), st)"
  by (simp add: ProgressHook_call_def)

lemma flagged_thread_ends_in_error:
  assumes "map_of (download_progress st) vid = Some j" "cancel_requested st vid"
    "ticks run = Emit d now rs # ts"
  shows "download_thread vid a run st =
           (None, st\<lparr>download_progress :=
                       AList.update vid (j\<lparr>status := ''error'', error := Some cancel_msg\<rparr>)
                         (download_progress st)\<rparr>)"
  using assms
  by (simp add: download_thread_def ydl_call_def hook_raises_when_flagged assign_def
      update_job_def)

lemma flagged_merge_ends_in_error:
  assumes "map_of (download_progress st) vid = Some j" "cancel_requested st vid"
    "ticks (video_run sc) = Emit d now rs # ts"
  shows "fst (download_and_merge out vid sc st) = Inl (Exception cancel_msg)"
    and "map_of (download_progress (snd (download_and_merge out vid sc st))) vid
           = Some (j\<lparr>status := ''error'', error := Some cancel_msg\<rparr>)"
  using assms
  by (simp_all add: download_and_merge_def merge_body_def download_stage_def ydl_call_def
      hook_raises_when_flagged stage_handler_def cancel_msg_unmarked update_job_def
      outer_handler_def AList.update_conv' remove_temp_def drop_process_def Let_def)

text \<open>
  Claim C1 on the code. The submitted job \<open>1000\<close> is cancelled by another thread during the
  video download, during the audio download, or while the worker waits for the encoder;
  the cancellation itself leaves the job \<open>cancelled\<close>. In each of the three runs
  \<open>download_and_merge\<close> then raises the cancellation exception and, since its message
  does not contain the marker \<open>cancelled\<close> that the handlers test for, records it: the
  job ends with the status \<open>error\<close>. The worker of the single-file path,
  \<open>download_thread\<close>, records every exception and ends the same way.
\<close>

theorem cancellation_ends_in_error:
  "job_status submitted ''1000'' = Some ''starting''
   \<and> fst (download_and_merge ''downloads/video_1000.mp4'' ''1000''
            (example_merge True False False) submitted) = Inl (Exception cancel_msg)
   \<and> job_status (snd (download_and_merge ''downloads/video_1000.mp4'' ''1000''
                        (example_merge True False False) submitted)) ''1000'' = Some ''error''
   \<and> fst (download_and_merge ''downloads/video_1000.mp4'' ''1000''
            (example_merge False True False) submitted) = Inl (Exception cancel_msg)
   \<and> job_status (snd (download_and_merge ''downloads/video_1000.mp4'' ''1000''
                        (example_merge False True False) submitted)) ''1000'' = Some ''error''
   \<and> fst (download_and_merge ''downloads/video_1000.mp4'' ''1000''
            (example_merge False False True) submitted) = Inl (Exception cancel_msg)
   \<and> job_status (snd (download_and_merge ''downloads/video_1000.mp4'' ''1000''
                        (example_merge False False True) submitted)) ''1000'' = Some ''error''
   \<and> job_status (snd (download_thread ''1000'' False
                        (example_stage ''downloads/video_1000.mp4'' True) submitted)) ''1000''
       = Some ''error''
   \<and> map_option error (map_of (download_progress (snd (download_thread ''1000'' False
                        (example_stage ''downloads/video_1000.mp4'' True) submitted))) ''1000'')
       = Some (Some cancel_msg)"
  by (simp add: submitted_eq run_defs)

section \<open>Writes of the error field\<close>

lemma same_errors_refl [simp]: "same_errors st st"
  by (simp add: same_errors_def)

lemma same_errors_trans: "same_errors a b \<Longrightarrow> same_errors b c \<Longrightarrow> same_errors a c"
  by (simp add: same_errors_def)

lemma same_errors_progress:
  "download_progress st' = download_progress st \<Longrightarrow> same_errors st st'"
  by (simp add: same_errors_def)

lemma same_errors_not_written:
  assumes "same_errors st st'"
  shows "\<not> error_written st st' vid"
proof
  assume "error_written st st' vid"
  then obtain j' m where j: "map_of (download_progress st') vid = Some j'" "error j' = Some m"
    and n: "map_option error (map_of (download_progress st) vid) \<noteq> Some (Some m)"
    unfolding error_written_def by blast
  from assms have "map_option error (map_of (download_progress st') vid)
                     = map_option error (map_of (download_progress st) vid)"
    unfolding same_errors_def by blast
  then have "map_option error (map_of (download_progress st) vid) = Some (Some m)"
    using j by simp
  with n show False by blast
qed

lemma same_errors_update:
  assumes "\<And>j. error (f j) = error j" "update_job vid f st = Inr st'"
  shows "same_errors st st'"
  using assms
  by (auto simp: update_job_def same_errors_def AList.update_conv' split: option.splits)

lemma same_errors_assign:
  assumes "\<And>j. error (f j) = error j"
  shows "same_errors st (snd (assign vid f st))"
  using same_errors_update[OF assms, of vid st]
  by (cases "update_job vid f st") (simp_all add: assign_def)

lemma downloading_update_error [simp]: "error (downloading_update h t n s now j) = error j"
  by (simp add: downloading_update_def Let_def)

lemma record_progress_quiet: "same_errors st (snd (record_progress h d now [] st))"
proof -
  let ?total = "py_or (get_or (total_bytes d) 0) (get_or (total_bytes_estimate d) 0)"
  show ?thesis
  proof (cases ?total)
    case None
    then show ?thesis by (simp add: record_progress_def)
  next
    case t: (Some t)
    show ?thesis
    proof (cases "get_or (downloaded_bytes d) 0")
      case None
      then show ?thesis using t by (simp add: record_progress_def)
    next
      case n: (Some n)
      show ?thesis
      proof (cases "t \<noteq> 0 \<and> n \<noteq> 0")
        case False
        then show ?thesis using t n by (auto simp: record_progress_def)
      next
        case True
        show ?thesis
        proof (cases "get_or (ev_speed d) 0")
          case None
          then show ?thesis using t n True by (simp add: record_progress_def)
        next
          case s: (Some s)
          show ?thesis
          proof (cases "update_job (video_id h) (downloading_update h t n s now) st")
            case (Inl e)
            show ?thesis unfolding record_progress_def Let_def using t n True s Inl by simp
          next
            case (Inr st1)
            have "same_errors st st1" by (rule same_errors_update[OF _ Inr]) simp
            then show ?thesis unfolding record_progress_def Let_def using t n True s Inr by simp
          qed
        qed
      qed
    qed
  qed
qed

lemma hook_quiet: "same_errors st (snd (ProgressHook_call h d now [] st))"
proof -
  obtain r st1 where c: "record_progress h d now [] st = (r, st1)"
    by (cases "record_progress h d now [] st")
  have s1: "same_errors st st1" using record_progress_quiet[of st h d now] c by simp
  have a: "same_errors st (snd (assign (video_id h) (\<lambda>j. j\<lparr>status := x\<rparr>) st))" for x
    by (rule same_errors_assign) simp
  have b: "same_errors st (snd (assign (video_id h) (\<lambda>j. j\<lparr>status := x, progress := y\<rparr>) st))" for x y
    by (rule same_errors_assign) simp
  show ?thesis
    unfolding ProgressHook_call_def using s1 a b c
    by (cases r) simp_all
qed

lemma run_ticks_quiet: "quiet ts \<Longrightarrow> same_errors st (snd (run_ticks h ts st))"
proof (induction ts arbitrary: st)
  case Nil
  show ?case by simp
next
  case (Cons t ts)
  show ?case
  proof (cases t)
    case (Meanwhile r)
    with Cons.prems show ?thesis by simp
  next
    case (Emit d now rs)
    with Cons.prems have rs: "rs = []" and q: "quiet ts" by simp_all
    obtain r st1 where c: "ProgressHook_call h d now [] st = (r, st1)" by (cases "ProgressHook_call h d now [] st")
    have s1: "same_errors st st1" using hook_quiet[of st h d now] c by simp
    show ?thesis
    proof (cases r)
      case None
      then show ?thesis using Emit rs c same_errors_trans[OF s1 Cons.IH[OF q, of st1]] by simp
    next
      case (Some e)
      then show ?thesis using Emit rs c s1 by simp
    qed
  qed
qed

lemma write_files_progress [simp]: "download_progress (write_files ws st) = download_progress st"
  by (simp add: write_files_def)

lemma ydl_call_quiet:
  assumes "quiet (ticks run)"
  shows "same_errors st (snd (ydl_call vid stg run st))"
proof -
  let ?h = "\<lparr>video_id = vid, stage = stg, start_time = started run\<rparr>"
  obtain r st1 where c: "run_ticks ?h (ticks run) st = (r, st1)"
    by (cases "run_ticks ?h (ticks run) st")
  have s1: "same_errors st st1" using run_ticks_quiet[OF assms, of st ?h] c by simp
  have s2: "same_errors st1 (write_files (written run) st1)"
    by (rule same_errors_progress) simp
  show ?thesis
  proof (cases r)
    case None
    then show ?thesis using c same_errors_trans[OF s1 s2] by (simp add: ydl_call_def)
  next
    case (Some e)
    then show ?thesis using c s1 by (simp add: ydl_call_def)
  qed
qed


lemma errors_marked_same: "same_errors st st' \<Longrightarrow> errors_marked st st'"
  by (simp add: errors_marked_def same_errors_not_written)

lemma errors_marked_after:
  assumes "same_errors st st1" "errors_marked st1 st2"
  shows "errors_marked st st2"
proof -
  have "error_written st1 st2 vid" if "error_written st st2 vid" for vid
  proof -
    from assms(1) have "map_option error (map_of (download_progress st1) vid)
                         = map_option error (map_of (download_progress st) vid)"
      unfolding same_errors_def by blast
    with that show ?thesis unfolding error_written_def by simp
  qed
  with assms(2) show ?thesis unfolding errors_marked_def by blast
qed

lemma errors_marked_progress:
  "errors_marked st st1 \<Longrightarrow> download_progress st2 = download_progress st1 \<Longrightarrow> errors_marked st st2"
  by (simp add: errors_marked_def error_written_def job_status_def)

lemma errors_marked_mark:
  assumes "errors_marked st st1"
    "update_job v (\<lambda>j. j\<lparr>status := ''error'', error := Some m\<rparr>) st1 = Inr st2"
  shows "errors_marked st st2"
proof -
  from assms(2) obtain j where j: "map_of (download_progress st1) v = Some j"
    and st2: "download_progress st2 =
               AList.update v (j\<lparr>status := ''error'', error := Some m\<rparr>) (download_progress st1)"
    by (auto simp: update_job_def split: option.splits)
  have "job_status st2 vid = Some ''error''" if w: "error_written st st2 vid" for vid
  proof (cases "vid = v")
    case True
    then show ?thesis by (simp add: job_status_def st2 AList.update_conv')
  next
    case False
    then have e: "map_of (download_progress st2) vid = map_of (download_progress st1) vid"
      by (simp add: st2 AList.update_conv')
    with w have "error_written st st1 vid" by (simp add: error_written_def)
    with assms(1) have "job_status st1 vid = Some ''error''" by (simp add: errors_marked_def)
    with e show ?thesis by (simp add: job_status_def)
  qed
  then show ?thesis by (simp add: errors_marked_def)
qed

lemma errors_marked_assign:
  assumes "errors_marked st st1"
  shows "errors_marked st (snd (assign v (\<lambda>j. j\<lparr>status := ''error'', error := Some m\<rparr>) st1))"
proof (cases "update_job v (\<lambda>j. j\<lparr>status := ''error'', error := Some m\<rparr>) st1")
  case (Inl e)
  then show ?thesis using assms by (simp add: assign_def)
next
  case (Inr st2)
  then show ?thesis using errors_marked_mark[OF assms Inr] by (simp add: assign_def)
qed

lemma stage_handler_marked:
  assumes "errors_marked st st1"
  shows "errors_marked st (snd (stage_handler v l e st1))"
proof (cases "update_job v (\<lambda>j. j\<lparr>status := ''error'', error := Some (l @ str_exn e)\<rparr>) st1")
  case (Inl k)
  then show ?thesis using assms by (simp add: stage_handler_def)
next
  case (Inr st2)
  then show ?thesis using errors_marked_mark[OF assms Inr] assms by (simp add: stage_handler_def)
qed

lemma outer_handler_marked:
  assumes "errors_marked st st1"
  shows "errors_marked st (outer_handler v e st1)"
proof (cases "update_job v (\<lambda>j. j\<lparr>status := ''error'', error := Some (str_exn e)\<rparr>) st1")
  case (Inl k)
  then show ?thesis using assms by (simp add: outer_handler_def)
next
  case (Inr st2)
  then show ?thesis using errors_marked_mark[OF assms Inr] assms by (simp add: outer_handler_def)
qed

lemma download_thread_marked:
  assumes "quiet (ticks run)"
  shows "errors_marked st (snd (download_thread v a run st))"
proof -
  obtain r st1 where c: "ydl_call v ''video'' run st = (r, st1)"
    by (cases "ydl_call v ''video'' run st")
  have s1: "same_errors st st1" using ydl_call_quiet[OF assms, of st v "''video''"] c by simp
  have m: "errors_marked st1 (snd (assign v (\<lambda>j. j\<lparr>status := ''error'', error := Some x\<rparr>) s))"
    if "same_errors st1 s" for x s
    by (rule errors_marked_assign) (rule errors_marked_same[OF that])
  show ?thesis
  proof (cases r)
    case (Inl e)
    then show ?thesis
      using c errors_marked_after[OF s1 m[OF same_errors_refl]]
      by (simp add: download_thread_def Let_def)
  next
    case (Inr p)
    let ?s = "if a \<and> path_exists (path_join DOWNLOAD_FOLDER (v @ ''_temp'') @ ''.mp3'') st1
              then shutil_move (path_join DOWNLOAD_FOLDER (v @ ''_temp'') @ ''.mp3'')
                     (path_join DOWNLOAD_FOLDER (v @ ''_final.mp3'')) st1
              else st1"
    have s2: "same_errors st1 ?s"
      by (rule same_errors_progress) (simp add: shutil_move_def split: option.splits)
    obtain r2 st2 where d: "assign v (\<lambda>j. j\<lparr>status := ''completed'', progress := 100\<rparr>) ?s = (r2, st2)"
      by (cases "assign v (\<lambda>j. j\<lparr>status := ''completed'', progress := 100\<rparr>) ?s")
    have s3: "same_errors ?s st2"
      using same_errors_assign[of "\<lambda>j. j\<lparr>status := ''completed'', progress := 100\<rparr>" ?s v] d
      by simp
    have s13: "same_errors st1 st2" by (rule same_errors_trans[OF s2 s3])
    show ?thesis
    proof (cases r2)
      case None
      then show ?thesis
        using c Inr d errors_marked_same[OF same_errors_trans[OF s1 s13]]
        by (simp add: download_thread_def Let_def)
    next
      case (Some e)
      then show ?thesis
        using c Inr d errors_marked_after[OF s1 m[OF s13]]
        by (simp add: download_thread_def Let_def)
    qed
  qed
qed

lemma download_stage_marked:
  assumes "quiet (ticks run)" "download_stage v stg l run st = (r, p, st')"
  shows "errors_marked st st'" and "r = None \<Longrightarrow> same_errors st st'"
proof -
  obtain r1 st1 where c: "ydl_call v stg run st = (r1, st1)" by (cases "ydl_call v stg run st")
  have s1: "same_errors st st1" using ydl_call_quiet[OF assms(1), of st v stg] c by simp
  have h: "errors_marked st1 (snd (stage_handler v l e st1))" for e
    by (rule stage_handler_marked) (rule errors_marked_same[OF same_errors_refl])
  have "errors_marked st st' \<and> (r = None \<longrightarrow> same_errors st st')"
  proof (cases r1)
    case (Inl e)
    then show ?thesis
      using assms(2) c errors_marked_after[OF s1 h[of e]]
      by (auto simp: download_stage_def split: prod.splits)
  next
    case (Inr path)
    show ?thesis
    proof (cases "job_status st1 v = Some ''cancelled''")
      case True
      then show ?thesis
        using assms(2) c Inr errors_marked_after[OF s1 h[of "Exception cancel_msg"]]
        by (auto simp: download_stage_def split: prod.splits)
    next
      case False
      then show ?thesis
        using assms(2) c Inr s1 errors_marked_same[OF s1]
        by (auto simp: download_stage_def)
    qed
  qed
  then show "errors_marked st st'" and "r = None \<Longrightarrow> same_errors st st'" by blast+
qed

lemma drop_process_progress [simp]:
  "download_progress (drop_process v st) = download_progress st"
  by (simp add: drop_process_def)

lemma remove_temp_progress [simp]:
  "download_progress (remove_temp p st) = download_progress st"
  by (simp add: remove_temp_def split: option.splits)

lemma merge_stage_marked:
  assumes "during_merge sc = []"
  shows "errors_marked st (snd (merge_stage out v sc st))"
proof (cases "update_job v (\<lambda>j. j\<lparr>status := ''merging'', progress := 90\<rparr>) st")
  case (Inl e)
  then show ?thesis by (simp add: merge_stage_def errors_marked_same)
next
  case (Inr st1)
  have s1: "same_errors st st1" by (rule same_errors_update[OF _ Inr]) simp
  show ?thesis
  proof (cases "popen sc")
    case (Inl e)
    then show ?thesis using Inr errors_marked_same[OF s1] by (simp add: merge_stage_def)
  next
    case pid: (Inr pid)
    let ?st3 = "write_files (case ffmpeg_output sc of None \<Rightarrow> [] | Some m \<Rightarrow> [(out, m)])
                  (st1\<lparr>download_processes := (download_processes st1)(v \<mapsto> pid)\<rparr>)"
    have s3: "same_errors st ?st3"
      by (rule same_errors_trans[OF s1]) (rule same_errors_progress, simp)
    have em: "errors_marked st ?st3" by (rule errors_marked_same[OF s3])
    have mark: "errors_marked st (snd (case update_job v
                       (\<lambda>j. j\<lparr>status := ''error'', error := Some m\<rparr>) ?st3 of
                       Inl e \<Rightarrow> (Some e, ?st3) | Inr st4 \<Rightarrow> (Some (Exception m), st4)))" for m
    proof (cases "update_job v (\<lambda>j. j\<lparr>status := ''error'', error := Some m\<rparr>) ?st3")
      case (Inl e)
      then show ?thesis using em by simp
    next
      case (Inr st4)
      then show ?thesis using errors_marked_mark[OF em Inr] by simp
    qed
    have fin: "errors_marked st (snd (assign v (\<lambda>j. j\<lparr>status := ''completed'', progress := 100\<rparr>)
                                   (drop_process v ?st3)))"
    proof -
      have a: "same_errors ?st3 (drop_process v ?st3)" by (rule same_errors_progress) simp
      have b: "same_errors (drop_process v ?st3)
                 (snd (assign v (\<lambda>j. j\<lparr>status := ''completed'', progress := 100\<rparr>)
                        (drop_process v ?st3)))"
        by (rule same_errors_assign) simp
      show ?thesis
        by (rule errors_marked_same[OF same_errors_trans[OF s3 same_errors_trans[OF a b]]])
    qed
    show ?thesis
      unfolding merge_stage_def Let_def
      using Inr pid assms mark fin em
      by (simp del: fun_upd_apply cong: sum.case_cong)
  qed
qed

lemma merge_body_marked:
  assumes "quiet (ticks (video_run sc))" "quiet (ticks (audio_run sc))" "during_merge sc = []"
    "merge_body out v sc st = (r, vp, ap, st')"
  shows "errors_marked st st'"
proof -
  obtain r1 p1 st1 where v1: "download_stage v ''video'' ''Error descargando video: '' (video_run sc) st = (r1, p1, st1)"
    by (metis prod_cases3)
  note d1 = download_stage_marked[OF assms(1) v1]
  show ?thesis
  proof (cases r1)
    case (Some e)
    then show ?thesis using assms(4) v1 d1(1) by (simp add: merge_body_def)
  next
    case None
    note s1 = d1(2)[OF None]
    obtain r2 p2 st2 where v2: "download_stage v ''audio'' ''Error descargando audio: '' (audio_run sc) st1 = (r2, p2, st2)"
      by (metis prod_cases3)
    note d2 = download_stage_marked[OF assms(2) v2]
    show ?thesis
    proof (cases r2)
      case (Some e)
      then show ?thesis using assms(4) v1 None v2 errors_marked_after[OF s1 d2(1)]
        by (simp add: merge_body_def)
    next
      case n2: None
      note s2 = same_errors_trans[OF s1 d2(2)[OF n2]]
      have "errors_marked st (snd (merge_stage out v sc st2))"
        by (rule errors_marked_after[OF s2 merge_stage_marked[OF assms(3)]])
      then show ?thesis using assms(4) v1 None v2 n2
        by (auto simp: merge_body_def split: prod.splits)
    qed
  qed
qed

lemma download_and_merge_marked:
  assumes "quiet (ticks (video_run sc))" "quiet (ticks (audio_run sc))" "during_merge sc = []"
  shows "errors_marked st (snd (download_and_merge output_path v sc st))"
proof -
  obtain r vp ap st1 where b: "merge_body (splitext_root output_path @ ''.mp4'') v sc st = (r, vp, ap, st1)"
    by (metis prod_cases4)
  note m = merge_body_marked[OF assms b]
  have "errors_marked st (case r of None \<Rightarrow> st1 | Some e \<Rightarrow> outer_handler v e st1)"
    using m outer_handler_marked[OF m] by (cases r) simp_all
  then have "errors_marked st (drop_process v (remove_temp ap (remove_temp vp
                 (case r of None \<Rightarrow> st1 | Some e \<Rightarrow> outer_handler v e st1))))"
    by (rule errors_marked_progress) simp
  then show ?thesis using b by (simp add: download_and_merge_def Let_def)
qed

lemma cleanup_downloads_progress:
  "map_of (download_progress (cleanup_downloads now st)) vid =
     (if swept st vid then None else map_of (download_progress st) vid)"
proof -
  have "distinct (remdups (map fst (files st)))"
    "set (remdups (map fst (files st))) \<subseteq> fst ` set (files st)"
    by simp_all
  from sweep_files_result[OF this, of now] obtain st1 where
    s: "sweep_files now (remdups (map fst (files st))) st = (None, st1)"
    and t: "download_progress st1 = download_progress st"
    by blast
  have c: "cleanup_downloads now st = fold sweep_job (map fst (download_progress st)) st1"
    using s t by (simp add: cleanup_downloads_def)
  have sw: "swept st1 vid = swept st vid" by (simp add: swept_def t)
  have k: "swept st vid \<Longrightarrow> vid \<in> set (map fst (download_progress st))"
    unfolding swept_def by (metis map_of_eq_None_iff option.distinct(1) set_map)
  show ?thesis unfolding c using k by (auto simp: fold_sweep_job sw t)
qed

lemma cancel_mark_result:
  assumes "cancel_mark v st = Inr st'"
  shows "\<exists>j. map_of (download_progress st) v = Some j
           \<and> download_progress st' = AList.update v
                (j\<lparr>status := ''cancelling'', progress := 0, error := Some ''Cancelando descarga...''\<rparr>)
                (download_progress st)"
  using assms
  by (auto simp: cancel_mark_def update_job_def set_cancel_flag_def split: option.splits)

lemma download_progress_after:
  "download_progress (snd (download data t x k st)) = download_progress st
   \<or> (\<exists>a ti p. download_progress (snd (download data t x k st))
                 = AList.update (video_id_at t) (new_job a ti p) (download_progress st))"
  by (auto simp: download_def Let_def register_job_def
      split: option.splits sum.splits field.splits)

lemma fetch_artifact_progress [simp]:
  "download_progress (snd (fetch_artifact v st)) = download_progress st"
  by (auto simp: fetch_artifact_def split: response.splits body.splits)

text \<open>
  Claim C9, as the code has it. The \<open>error\<close> field is written only together with a
  status: \<open>cancel_download\<close> stores its first message with the status \<open>cancelling\<close> and
  its second with the status \<open>cancelled\<close>; the two workers, run with no other thread
  serving a request meanwhile, store a message only under a job they leave with the status
  \<open>error\<close>; the progress hook, the submission, the artifact fetch and the sweeper store
  none.
\<close>

theorem error_written_only_with_status:
  "(cancel_mark v st = Inr st' \<longrightarrow>
      (\<forall>vid. error_written st st' vid \<longrightarrow> job_status st' vid = Some ''cancelling''))
   \<and> (\<forall>vid. error_written st (snd (cancel_download v st)) vid
          \<longrightarrow> job_status (snd (cancel_download v st)) vid = Some ''cancelled'')
   \<and> (\<forall>vid. \<not> error_written st (snd (ProgressHook_call h d now [] st)) vid)
   \<and> (quiet (ticks run) \<longrightarrow> errors_marked st (snd (download_thread v a run st)))
   \<and> (quiet (ticks (video_run sc)) \<and> quiet (ticks (audio_run sc)) \<and> during_merge sc = []
        \<longrightarrow> errors_marked st (snd (download_and_merge out v sc st)))
   \<and> (\<forall>vid. \<not> error_written st (snd (download data t x k st)) vid)
   \<and> (\<forall>vid. \<not> error_written st (snd (fetch_artifact v st)) vid)
   \<and> (\<forall>vid. \<not> error_written st (cleanup_downloads t st) vid)"
proof -
  have mark: "job_status st' vid = Some ''cancelling''"
    if c: "cancel_mark v st = Inr st'" and w: "error_written st st' vid" for vid
  proof -
    from cancel_mark_result[OF c] obtain j where j: "map_of (download_progress st) v = Some j"
      and st': "download_progress st' = AList.update v
                (j\<lparr>status := ''cancelling'', progress := 0, error := Some ''Cancelando descarga...''\<rparr>)
                (download_progress st)" by blast
    show ?thesis
    proof (cases "vid = v")
      case True
      then show ?thesis by (simp add: job_status_def st' AList.update_conv')
    next
      case False
      then have "map_of (download_progress st') vid = map_of (download_progress st) vid"
        by (simp add: st' AList.update_conv')
      with w show ?thesis by (auto simp: error_written_def)
    qed
  qed
  have cancel: "job_status (snd (cancel_download v st)) vid = Some ''cancelled''"
    if w: "error_written st (snd (cancel_download v st)) vid" for vid
  proof (cases "map_of (download_progress st) v")
    case None
    then have "snd (cancel_download v st) = st" by (simp add: cancel_download_absent)
    with w show ?thesis by (auto simp: error_written_def)
  next
    case (Some j)
    note p = cancel_download_present(2)[OF Some]
    show ?thesis
    proof (cases "vid = v")
      case True
      then show ?thesis by (simp add: job_status_def p AList.update_conv')
    next
      case False
      then have "map_of (download_progress (snd (cancel_download v st))) vid
                   = map_of (download_progress st) vid"
        by (simp add: p AList.update_conv')
      with w show ?thesis by (auto simp: error_written_def)
    qed
  qed
  have hook: "\<not> error_written st (snd (ProgressHook_call h d now [] st)) vid" for vid
    by (rule same_errors_not_written[OF hook_quiet])
  have sub: "\<not> error_written st (snd (download data t x k st)) vid" for vid
    using download_progress_after[of data t x k st]
    by (auto simp: error_written_def AList.update_conv' new_job_def split: if_splits)
  have fetch: "\<not> error_written st (snd (fetch_artifact v st)) vid" for vid
    by (rule same_errors_not_written[OF same_errors_progress]) simp
  have sweep: "\<not> error_written st (cleanup_downloads t st) vid" for vid
    by (auto simp: error_written_def cleanup_downloads_progress split: if_splits)
  from mark cancel hook sub fetch sweep download_thread_marked download_and_merge_marked
  show ?thesis by blast
qed


lemma failed_run:
  "\<exists>j. download_progress (snd (download_thread ''1000'' False example_failure submitted))
          = [(''1000'', j)]
       \<and> status j = ''error'' \<and> error j = Some ''HTTP Error 403: Forbidden''"
  by (simp add: download_thread_def ydl_call_def example_failure_def example_event_def
      ProgressHook_call_def record_progress_def cancel_requested_def submitted_eq
      empty_registry_def new_job_def update_job_def assign_def write_files_def get_or_def
      py_or_def truthy_num_def downloading_update_def Let_def)

theorem error_written_only_with_status_witness:
  "quiet (ticks example_failure)
   \<and> error_written submitted (snd (download_thread ''1000'' False example_failure submitted)) ''1000''
   \<and> job_status (snd (download_thread ''1000'' False example_failure submitted)) ''1000''
       = Some ''error''
   \<and> error_written submitted (snd (cancel_download ''1000'' submitted)) ''1000''
   \<and> job_status (snd (cancel_download ''1000'' submitted)) ''1000'' = Some ''cancelled''
   \<and> quiet (ticks (video_run (example_merge False False False)))
   \<and> quiet (ticks (audio_run (example_merge False False False)))
   \<and> during_merge (example_merge False False False) = []
   \<and> errors_marked submitted
        (snd (download_and_merge ''downloads/video_1000.mp4'' ''1000''
               (example_merge False False False) submitted))"
proof -
  have q: "quiet (ticks example_failure)" by (simp add: example_failure_def)
  have w: "error_written submitted
             (snd (download_thread ''1000'' False example_failure submitted)) ''1000''"
    using failed_run by (auto simp: error_written_def submitted_eq new_job_def)
  have c: "error_written submitted (snd (cancel_download ''1000'' submitted)) ''1000''"
    by (simp add: error_written_def cancelled_eq) (simp add: submitted_eq new_job_def)
  have m: "quiet (ticks (video_run (example_merge False False False)))"
    "quiet (ticks (audio_run (example_merge False False False)))"
    "during_merge (example_merge False False False) = []"
    by (simp_all add: example_merge_def example_stage_def)
  note t = error_written_only_with_status
    [of "''1000''" submitted _ _ _ _ example_failure False "example_merge False False False"
        "''downloads/video_1000.mp4''"]
  from t q have "errors_marked submitted
                   (snd (download_thread ''1000'' False example_failure submitted))" by blast
  with w have e: "job_status (snd (download_thread ''1000'' False example_failure submitted)) ''1000''
       = Some ''error''" by (simp add: errors_marked_def)
  from t c have k: "job_status (snd (cancel_download ''1000'' submitted)) ''1000'' = Some ''cancelled''"
    by blast
  from t m have d: "errors_marked submitted
        (snd (download_and_merge ''downloads/video_1000.mp4'' ''1000''
               (example_merge False False False) submitted))" by blast
  from q w e c k m d show ?thesis by blast
qed

text \<open>
  Claim C9 as stated fails: cancelling the submitted job, which had no error, stores the
  message \<open>Cancelando descarga...\<close> while the status is \<open>cancelling\<close> and the message
  \<open>Descarga cancelada por el usuario\<close> while the status is \<open>cancelled\<close>.
\<close>

theorem cancellation_stores_error_message:
  "map_option error (map_of (download_progress submitted) ''1000'') = Some None
   \<and> job_status (snd (cancel_download ''1000'' submitted)) ''1000'' = Some ''cancelled''
   \<and> map_option error (map_of (download_progress (snd (cancel_download ''1000'' submitted))) ''1000'')
       = Some (Some ''Descarga cancelada por el usuario'')
   \<and> (case cancel_mark ''1000'' submitted of
         Inl e \<Rightarrow> False
       | Inr st \<Rightarrow> job_status st ''1000'' = Some ''cancelling''
                  \<and> map_option error (map_of (download_progress st) ''1000'')
                      = Some (Some ''Cancelando descarga...''))"
  by (simp add: cancelled_eq job_status_def cancel_msg_def)
     (simp add: submitted_eq new_job_def cancel_mark_def update_job_def set_cancel_flag_def
        empty_registry_def job_status_def)

end
